theory Spec2Isabelle
  imports Main "HOL-Library.List_Lexorder" "HOL-Library.Product_Lexorder" "HOL-Library.Multiset"
begin

section \<open>Values and strings\<close>

text \<open>
  A Python \<open>str\<close> is a sequence of Unicode code points; \<open>len\<close>, \<open>ord\<close>, slicing and
  \<open>replace\<close> all count code points. It is modelled as a list of code points, so that
  the full-width parentheses (U+FF08, U+FF09) are single characters, as in the source.
\<close>

type_synonym ustr = "nat list"

text \<open>
  The scalar values a DataFrame cell or a worksheet cell holds. \<open>PNaN\<close> is the float
  \<open>nan\<close> that pandas uses for a missing value, \<open>PNaT\<close> its missing timestamp, and
  \<open>PTimestamp d\<close> a timestamp falling on the day with ordinal \<open>d\<close>. Other floating-point
  numbers are outside the model.
\<close>

datatype pyval = PNone | PNaN | PNaT | PBool bool | PInt int | PStr ustr | PTimestamp int

definition replace_char :: "nat \<Rightarrow> nat \<Rightarrow> ustr \<Rightarrow> ustr" where
  "replace_char a b s = map (\<lambda>c. if c = a then b else c) s"

text \<open>The body of \<open>clean_excel_value\<close> on a string (lines 23 to 31 of app.py).\<close>

definition clean_str :: "ustr \<Rightarrow> ustr" where
  "clean_str s =
     (let v1 = replace_char 65289 41 (replace_char 65288 40 s);
          v2 = replace_char 13 32 (replace_char 10 32 v1);
          v3 = filter (\<lambda>c. 32 \<le> c) v2
      in if length v3 > 32767 then take 32767 v3 else v3)"

fun clean_excel_value :: "pyval \<Rightarrow> pyval" where
  "clean_excel_value (PStr s) = PStr (clean_str s)"
| "clean_excel_value v = v"

section \<open>The value sanitizer\<close>

lemma clean_str_length: "length (clean_str s) \<le> 32767"
  by (simp add: clean_str_def Let_def)

lemma clean_str_printable: "c \<in> set (clean_str s) \<Longrightarrow> 32 \<le> c"
  by (auto simp: clean_str_def Let_def split: if_splits dest!: in_set_takeD)

lemma replace_char_absent: "a \<noteq> b \<Longrightarrow> a \<notin> set (replace_char a b s)"
  by (induction s) (simp_all add: replace_char_def)

lemma replace_char_keeps_absent:
  "x \<notin> set s \<Longrightarrow> x \<noteq> b \<Longrightarrow> x \<notin> set (replace_char a b s)"
  by (induction s) (simp_all add: replace_char_def)

lemma clean_str_subset:
  "set (clean_str s) \<subseteq>
     set (replace_char 13 32 (replace_char 10 32
            (replace_char 65289 41 (replace_char 65288 40 s))))"
proof -
  let ?v2 = "replace_char 13 32 (replace_char 10 32
            (replace_char 65289 41 (replace_char 65288 40 s)))"
  have "set (clean_str s) \<subseteq> set (filter (\<lambda>c. 32 \<le> c) ?v2)"
    using set_take_subset [of 32767 "filter (\<lambda>c. 32 \<le> c) ?v2"]
    by (simp add: clean_str_def Let_def)
  then show ?thesis by auto
qed

lemma clean_str_no_fullwidth: "65288 \<notin> set (clean_str s) \<and> 65289 \<notin> set (clean_str s)"
proof -
  have a: "(65288::nat) \<notin> set (replace_char 65288 40 s)"
    by (rule replace_char_absent) simp
  have b: "(65289::nat) \<notin> set (replace_char 65289 41 (replace_char 65288 40 s))"
    by (rule replace_char_absent) simp
  have a': "(65288::nat) \<notin> set (replace_char 65289 41 (replace_char 65288 40 s))"
    using a by (rule replace_char_keeps_absent) simp
  have "(65288::nat) \<notin> set (replace_char 10 32
            (replace_char 65289 41 (replace_char 65288 40 s)))"
    using a' by (rule replace_char_keeps_absent) simp
  then have c: "(65288::nat) \<notin> set (replace_char 13 32 (replace_char 10 32
            (replace_char 65289 41 (replace_char 65288 40 s))))"
    by (rule replace_char_keeps_absent) simp
  have "(65289::nat) \<notin> set (replace_char 10 32
            (replace_char 65289 41 (replace_char 65288 40 s)))"
    using b by (rule replace_char_keeps_absent) simp
  then have d: "(65289::nat) \<notin> set (replace_char 13 32 (replace_char 10 32
            (replace_char 65289 41 (replace_char 65288 40 s))))"
    by (rule replace_char_keeps_absent) simp
  show ?thesis
    using c d clean_str_subset [of s] by blast
qed

lemma clean_str_fixed:
  assumes "length s \<le> 32767" and "\<forall>c\<in>set s. 32 \<le> c"
    and "65288 \<notin> set s" and "65289 \<notin> set s"
  shows "clean_str s = s"
proof -
  have a: "replace_char 65288 40 s = s"
    using assms(3) by (induction s) (auto simp: replace_char_def)
  have b: "replace_char 65289 41 s = s"
    using assms(4) by (induction s) (auto simp: replace_char_def)
  have c: "replace_char 10 32 s = s"
    using assms(2) by (induction s) (auto simp: replace_char_def)
  have d: "replace_char 13 32 s = s"
    using assms(2) by (induction s) (auto simp: replace_char_def)
  have e: "filter (\<lambda>c. 32 \<le> c) s = s"
    using assms(2) by (induction s) auto
  show ?thesis
    using assms(1) by (simp add: clean_str_def a b c d e)
qed

lemma clean_str_idem: "clean_str (clean_str s) = clean_str s"
  using clean_str_length clean_str_printable clean_str_no_fullwidth
  by (intro clean_str_fixed) auto

text \<open>
  C1. On every string the sanitizer is idempotent, and its output has at most 32767
  characters, no character with a code point below 32 and no full-width parenthesis;
  a value that is not a string is returned unchanged.
\<close>

theorem clean_excel_value_sanitizer:
  "clean_excel_value (clean_excel_value (PStr x)) = clean_excel_value (PStr x)
   \<and> (\<exists>y. clean_excel_value (PStr x) = PStr y \<and> length y \<le> 32767
          \<and> (\<forall>c\<in>set y. 32 \<le> c) \<and> 65288 \<notin> set y \<and> 65289 \<notin> set y)
   \<and> ((\<forall>s. v \<noteq> PStr s) \<longrightarrow> clean_excel_value v = v)"
proof -
  have "clean_excel_value v = v" if "\<forall>s. v \<noteq> PStr s"
    using that by (cases v) auto
  then show ?thesis
    using clean_str_length clean_str_printable clean_str_no_fullwidth
    by (auto simp: clean_str_idem)
qed

theorem clean_excel_value_sanitizer_witness:
  "clean_excel_value (clean_excel_value (PStr [65288, 97, 10, 7, 65289]))
     = clean_excel_value (PStr [65288, 97, 10, 7, 65289])
   \<and> clean_excel_value (PStr [65288, 97, 10, 7, 65289]) = PStr [40, 97, 32, 41]
   \<and> (\<forall>s. PInt 5 \<noteq> PStr s) \<and> clean_excel_value (PInt 5) = PInt 5"
  using clean_excel_value_sanitizer [of "[65288, 97, 10, 7, 65289]" "PInt 5"]
  by (simp add: clean_str_def replace_char_def)

section \<open>The identity extractor\<close>

text \<open>
  ASCII text is written as an Isabelle string and read as code points; the double quote
  is code point 34.
\<close>

definition ascii :: "string \<Rightarrow> ustr" where
  "ascii s = map of_char s"

definition startswith :: "ustr \<Rightarrow> ustr \<Rightarrow> bool" where
  "startswith s p = (take (length p) s = p)"

text \<open>\<open>s.split(sep)\<close> for a separator of one character: never empty.\<close>

fun split_on :: "nat \<Rightarrow> ustr \<Rightarrow> ustr list" where
  "split_on q [] = [[]]"
| "split_on q (c # cs) =
     (if c = q then [] # split_on q cs
      else (case split_on q cs of p # ps \<Rightarrow> (c # p) # ps | [] \<Rightarrow> [[c]]))"

text \<open>
  \<open>str(n)\<close> of an integer: its decimal digits, with a minus sign when negative.
\<close>

fun digits :: "nat \<Rightarrow> ustr" where
  "digits n = (if n < 10 then [48 + n] else digits (n div 10) @ [48 + n mod 10])"

declare digits.simps [simp del]

definition str_int :: "int \<Rightarrow> ustr" where
  "str_int n = (if n < 0 then 45 # digits (nat (- n)) else digits (nat n))"

text \<open>
  \<open>int(s)\<close> of a string. On a plain decimal literal (an optional minus sign and at
  least one ASCII digit, at most 4300 characters, the default digit limit of recent
  interpreters) the builtin returns the number written. What it does on every other
  string (surrounding whitespace, a plus sign, underscores between digits, the decimal
  digits of other scripts, longer literals; \<open>ValueError\<close> otherwise) is fixed by the
  interpreter and its Unicode tables, not by this repository, and is the parameter
  \<open>io\<close>: \<open>None\<close> stands for \<open>ValueError\<close>.
\<close>

fun parse_digits :: "nat \<Rightarrow> ustr \<Rightarrow> nat option" where
  "parse_digits acc [] = Some acc"
| "parse_digits acc (c # cs) =
     (if 48 \<le> c \<and> c \<le> 57 then parse_digits (10 * acc + (c - 48)) cs else None)"

definition parse_decimal :: "ustr \<Rightarrow> int option" where
  "parse_decimal s =
     (case s of
        [] \<Rightarrow> None
      | c # cs \<Rightarrow>
          if c = 45 then (if cs = [] then None else map_option (\<lambda>n. - int n) (parse_digits 0 cs))
          else map_option int (parse_digits 0 s))"

definition py_int :: "(ustr \<Rightarrow> int option) \<Rightarrow> ustr \<Rightarrow> int option" where
  "py_int io s =
     (case (if length s \<le> 4300 then parse_decimal s else None) of
        Some n \<Rightarrow> Some n
      | None \<Rightarrow> io s)"

text \<open>
  \<open>extract_id_from_hyperlink\<close> (lines 46 to 55): \<open>IndexError\<close> is the case of fewer
  than four segments, \<open>ValueError\<close> the case where \<open>int\<close> fails; both return the value.
\<close>

definition extract_id_from_hyperlink :: "(ustr \<Rightarrow> int option) \<Rightarrow> pyval \<Rightarrow> pyval" where
  "extract_id_from_hyperlink io v =
     (case v of
        PStr s \<Rightarrow>
          if startswith s (ascii ''=HYPERLINK'') then
            (let parts = split_on 34 s in
             if length parts \<le> 3 then v
             else (case py_int io (parts ! 3) of Some n \<Rightarrow> PInt n | None \<Rightarrow> v))
          else v
      | _ \<Rightarrow> v)"

text \<open>
  \<open>extract_name_from_hyperlink\<close> (lines 57 to 66): \<open>split('"')[-2]\<close> is the segment
  before the last one and needs two segments.
\<close>

definition extract_name_from_hyperlink :: "pyval \<Rightarrow> pyval" where
  "extract_name_from_hyperlink v =
     (case v of
        PStr s \<Rightarrow>
          if startswith s (ascii ''=HYPERLINK'') then
            (let parts = split_on 34 s in
             if length parts < 2 then v else PStr (parts ! (length parts - 2)))
          else v
      | _ \<Rightarrow> v)"

text \<open>
  The documented shape of a link formula, \<open>=HYPERLINK("u"<sep>"t")\<close>: the source writes
  it with the separator \<open>", "\<close> (lines 246 and 344), the specification also with \<open>","\<close>.
\<close>

definition link_formula :: "ustr \<Rightarrow> ustr \<Rightarrow> ustr \<Rightarrow> ustr" where
  "link_formula sep u t =
     ascii ''=HYPERLINK('' @ [34] @ u @ [34] @ sep @ [34] @ t @ [34] @ ascii '')''"

lemma split_on_not_Nil: "split_on q s \<noteq> []"
  by (induction s) (auto split: list.splits)

lemma split_on_absent: "q \<notin> set a \<Longrightarrow> split_on q a = [a]"
  by (induction a) auto

lemma split_on_append: "q \<notin> set a \<Longrightarrow> split_on q (a @ q # r) = a # split_on q r"
  by (induction a) auto

lemma split_on_link_formula:
  assumes "34 \<notin> set u" and "34 \<notin> set sep" and "34 \<notin> set t"
  shows "split_on 34 (link_formula sep u t) = [ascii ''=HYPERLINK('', u, sep, t, ascii '')'']"
proof -
  have a: "34 \<notin> set (ascii ''=HYPERLINK('')" and b: "34 \<notin> set (ascii '')'')"
    by (simp_all add: ascii_def)
  have "link_formula sep u t
      = ascii ''=HYPERLINK('' @ 34 # (u @ 34 # (sep @ 34 # (t @ 34 # ascii '')'')))"
    by (simp add: link_formula_def)
  then show ?thesis
    using assms a b by (simp add: split_on_append split_on_absent)
qed

lemma startswith_link_formula: "startswith (link_formula sep u t) (ascii ''=HYPERLINK'')"
  by (simp add: startswith_def link_formula_def ascii_def)

lemma extract_id_link_formula:
  assumes "34 \<notin> set u" and "34 \<notin> set sep" and "34 \<notin> set t"
  shows "extract_id_from_hyperlink io (PStr (link_formula sep u t))
     = (case py_int io t of Some n \<Rightarrow> PInt n | None \<Rightarrow> PStr (link_formula sep u t))"
  using split_on_link_formula [OF assms] startswith_link_formula [of sep u t]
  by (simp add: extract_id_from_hyperlink_def)

text \<open>
  C2, as amended. A value that is not a string starting with \<open>=HYPERLINK\<close> is returned
  unchanged. A string that starts with it is returned unchanged when it has fewer than
  four quote-delimited segments or when its fourth segment is not an integer, and
  otherwise yields that integer; in particular a cell \<open>=HYPERLINK("u","t")\<close> (with any
  quote-free separator between the arguments) yields \<open>t\<close> as an integer when \<open>t\<close> is
  one, and itself when it is not. The extractor is total: it never raises.
\<close>

theorem extract_id_from_hyperlink_cases:
  "((\<forall>s. v = PStr s \<longrightarrow> \<not> startswith s (ascii ''=HYPERLINK''))
      \<longrightarrow> extract_id_from_hyperlink io v = v)
   \<and> (startswith s (ascii ''=HYPERLINK'') \<longrightarrow>
        extract_id_from_hyperlink io (PStr s) =
          (if length (split_on 34 s) \<le> 3 then PStr s
           else case py_int io (split_on 34 s ! 3) of Some n \<Rightarrow> PInt n | None \<Rightarrow> PStr s))
   \<and> (34 \<notin> set u \<and> 34 \<notin> set sep \<and> 34 \<notin> set t \<longrightarrow>
        extract_id_from_hyperlink io (PStr (link_formula sep u t)) =
          (case py_int io t of Some n \<Rightarrow> PInt n | None \<Rightarrow> PStr (link_formula sep u t)))"
proof (intro conjI impI)
  assume "\<forall>s. v = PStr s \<longrightarrow> \<not> startswith s (ascii ''=HYPERLINK'')"
  then show "extract_id_from_hyperlink io v = v"
    by (cases v) (simp_all add: extract_id_from_hyperlink_def)
next
  assume "startswith s (ascii ''=HYPERLINK'')"
  then show "extract_id_from_hyperlink io (PStr s) =
          (if length (split_on 34 s) \<le> 3 then PStr s
           else case py_int io (split_on 34 s ! 3) of Some n \<Rightarrow> PInt n | None \<Rightarrow> PStr s)"
    by (simp add: extract_id_from_hyperlink_def Let_def)
next
  assume "34 \<notin> set u \<and> 34 \<notin> set sep \<and> 34 \<notin> set t"
  then show "extract_id_from_hyperlink io (PStr (link_formula sep u t)) =
          (case py_int io t of Some n \<Rightarrow> PInt n | None \<Rightarrow> PStr (link_formula sep u t))"
    by (simp add: extract_id_link_formula)
qed

theorem extract_id_from_hyperlink_cases_witness:
  "(\<forall>s. PInt 7 \<noteq> PStr s)
   \<and> extract_id_from_hyperlink (\<lambda>_. None) (PInt 7) = PInt 7
   \<and> startswith (ascii ''=HYPERLINK(A1)'') (ascii ''=HYPERLINK'')
   \<and> extract_id_from_hyperlink (\<lambda>_. None) (PStr (ascii ''=HYPERLINK(A1)''))
       = PStr (ascii ''=HYPERLINK(A1)'')
   \<and> 34 \<notin> set (ascii ''u'') \<and> 34 \<notin> set (ascii '','') \<and> 34 \<notin> set (ascii ''1001'')
   \<and> extract_id_from_hyperlink (\<lambda>_. None)
         (PStr (link_formula (ascii '','') (ascii ''u'') (ascii ''1001''))) = PInt 1001"
  using extract_id_from_hyperlink_cases
    [where v = "PInt 7" and s = "ascii ''=HYPERLINK(A1)''" and io = "\<lambda>_. None"
       and u = "ascii ''u''" and sep = "ascii '',''" and t = "ascii ''1001''"]
  by (simp add: ascii_def startswith_def py_int_def parse_decimal_def)

text \<open>
  The claim as stated fails: the formula \<open>=HYPERLINK(A1)&"x"&"7"\<close> is not of the form
  \<open>=HYPERLINK("u","t")\<close> for any \<open>u\<close>, \<open>t\<close> and separator, yet the extractor does not
  return it unchanged: its fourth quote-delimited segment is \<open>7\<close>.
\<close>

theorem extract_id_from_hyperlink_counterexample:
  "(\<forall>io. extract_id_from_hyperlink io
          (PStr (ascii ''=HYPERLINK(A1)&'' @ [34] @ ascii ''x'' @ [34] @ ascii ''&''
                 @ [34] @ ascii ''7'' @ [34])) = PInt 7)
   \<and> (\<forall>sep u t. ascii ''=HYPERLINK(A1)&'' @ [34] @ ascii ''x'' @ [34] @ ascii ''&''
                 @ [34] @ ascii ''7'' @ [34] \<noteq> link_formula sep u t)
   \<and> PInt 7 \<noteq> PStr (ascii ''=HYPERLINK(A1)&'' @ [34] @ ascii ''x'' @ [34] @ ascii ''&''
                 @ [34] @ ascii ''7'' @ [34])"
proof (intro conjI allI)
  fix io
  show "extract_id_from_hyperlink io
          (PStr (ascii ''=HYPERLINK(A1)&'' @ [34] @ ascii ''x'' @ [34] @ ascii ''&''
                 @ [34] @ ascii ''7'' @ [34])) = PInt 7"
    by (simp add: extract_id_from_hyperlink_def ascii_def startswith_def py_int_def
        parse_decimal_def)
next
  fix sep u t
  show "ascii ''=HYPERLINK(A1)&'' @ [34] @ ascii ''x'' @ [34] @ ascii ''&''
                 @ [34] @ ascii ''7'' @ [34] \<noteq> link_formula sep u t"
    by (simp add: link_formula_def ascii_def)
next
  show "PInt 7 \<noteq> PStr (ascii ''=HYPERLINK(A1)&'' @ [34] @ ascii ''x'' @ [34] @ ascii ''&''
                 @ [34] @ ascii ''7'' @ [34])"
    by simp
qed

section \<open>The record grouper and ranker\<close>

text \<open>
  The columns kept from the flat dataset (\<open>columns_to_keep\<close>, lines 108 to 114), in the
  order of the source. A row of the DataFrame gives a value to each column; a column the
  CSV file lacks is not in the list of existing columns and its value is never read.
  The columns \<open>ClientId\<close>, \<open>Status\<close> and \<open>DepositDeadline\<close> are indexed without a guard
  (lines 145, 193, 218): without them the run aborts before any sheet is built.
\<close>

datatype column =
    ClientId | Name
  | Institution | Program | Status
  | StudentNumber | AdmissionCondition
  | LanguageDone | LanguageCondition | ReferenceDone | ReferenceCondition
  | DepositType | DepositDeadline | DepositDone | DepositCondition

type_synonym df_row = "column \<Rightarrow> pyval"

text \<open>\<open>pd.isna\<close> on a scalar.\<close>

fun is_null :: "pyval \<Rightarrow> bool" where
  "is_null PNone = True"
| "is_null PNaN = True"
| "is_null PNaT = True"
| "is_null _ = False"

text \<open>
  Python's \<open>==\<close>: booleans are the integers 0 and 1, \<open>nan\<close> and \<open>NaT\<close> differ from
  everything, themselves included. The elementwise \<open>==\<close> of pandas is false on
  every missing value. \<open>Series.unique\<close> keeps one entry per key of its hash table, where
  a stored missing value matches itself.
\<close>

fun py_num :: "pyval \<Rightarrow> int option" where
  "py_num (PBool b) = Some (if b then 1 else 0)"
| "py_num (PInt i) = Some i"
| "py_num _ = None"

definition py_eq :: "pyval \<Rightarrow> pyval \<Rightarrow> bool" where
  "py_eq a b =
     (case (py_num a, py_num b) of
        (Some x, Some y) \<Rightarrow> x = y
      | (None, None) \<Rightarrow> a = b \<and> a \<noteq> PNaN \<and> a \<noteq> PNaT
      | _ \<Rightarrow> False)"

definition pd_eq :: "pyval \<Rightarrow> pyval \<Rightarrow> bool" where
  "pd_eq a b = (\<not> is_null a \<and> \<not> is_null b \<and> py_eq a b)"

definition same_key :: "pyval \<Rightarrow> pyval \<Rightarrow> bool" where
  "same_key a b = (py_eq a b \<or> a = b)"

definition pd_unique :: "pyval list \<Rightarrow> pyval list" where
  "pd_unique xs =
     fold (\<lambda>x seen. if list_ex (\<lambda>k. same_key k x) seen then seen else seen @ [x]) xs []"

text \<open>
  The table \<open>result_priority\<close> (lines 209 to 215) with the default 6 of
  \<open>result_priority.get(x, 6)\<close>. Its keys are the two characters U+83B7 U+5F97
  (obtained) followed by CAS/COE, by UO or by CO, then U+62D2 U+4FE1 (rejected) and
  U+5927 U+5B66 U+64A4 U+9500 (withdrawn by the university).
\<close>

definition result_priority :: "pyval \<Rightarrow> nat" where
  "result_priority x =
     (case x of
        PStr s \<Rightarrow>
          if s = [33719, 24471] @ ascii ''CAS/COE'' then 1
          else if s = [33719, 24471] @ ascii ''UO'' then 2
          else if s = [33719, 24471] @ ascii ''CO'' then 3
          else if s = [25298, 20449] then 4
          else if s = [22823, 23398, 25764, 38144] then 5
          else 6
      | _ \<Rightarrow> 6)"

text \<open>
  \<open>sort_values(['sort_key', status])\<close> (line 221) sorts on two columns, which pandas
  does with a stable lexicographic sort, ascending, missing values last. Strings compare
  by code points. A column read from a CSV file holds strings, or numbers, besides
  missing values; the order between a string and a number, which pandas refuses to
  compare, is never asked for.
\<close>

fun status_order :: "pyval \<Rightarrow> nat \<times> int \<times> ustr" where
  "status_order (PStr s) = (0, 0, s)"
| "status_order (PInt i) = (0, i, [])"
| "status_order (PBool b) = (0, (if b then 1 else 0), [])"
| "status_order (PTimestamp d) = (0, d, [])"
| "status_order _ = (1, 0, [])"

definition sort_values :: "df_row list \<Rightarrow> df_row list" where
  "sort_values client_data =
     sort_key (\<lambda>r. (result_priority (r Status), status_order (r Status))) client_data"

text \<open>
  The loop over \<open>template_df[ClientId].unique()\<close> up to the \<open>continue\<close> of line 234:
  the rows of the client are selected, ranked, and a client without rows is skipped.
\<close>

definition client_groups :: "df_row list \<Rightarrow> (pyval \<times> df_row list) list" where
  "client_groups template_df =
     concat (map (\<lambda>client_id.
        let client_data = sort_values (filter (\<lambda>r. pd_eq (r ClientId) client_id) template_df)
        in if length client_data = 0 then [] else [(client_id, client_data)])
       (pd_unique (map (\<lambda>r. r ClientId) template_df)))"

text \<open>
  The client name (lines 227 to 230): the name of the first row of the ranked group, or
  the placeholder U+672A U+77E5 U+59D3 U+540D (name unknown) when that name is missing,
  when the group is empty or when the dataset has no name column.
\<close>

definition client_name :: "column list \<Rightarrow> df_row list \<Rightarrow> pyval" where
  "client_name existing_columns client_data =
     (if length client_data > 0 \<and> Name \<in> set existing_columns then
        (if \<not> is_null ((client_data ! 0) Name) then (client_data ! 0) Name
         else PStr [26410, 30693, 22995, 21517])
      else PStr [26410, 30693, 22995, 21517])"

text \<open>The position in the dataset of the first row of a client.\<close>

definition first_row :: "df_row list \<Rightarrow> pyval \<Rightarrow> nat" where
  "first_row template_df client_id =
     length (takeWhile (\<lambda>r. \<not> pd_eq (r ClientId) client_id) template_df)"

lemma py_eq_sym: "py_eq a b \<Longrightarrow> py_eq b a"
  by (auto simp: py_eq_def split: option.splits)

lemma py_eq_trans: "py_eq a b \<Longrightarrow> py_eq b c \<Longrightarrow> py_eq a c"
  by (auto simp: py_eq_def split: option.splits)

lemma same_key_sym: "same_key a b \<Longrightarrow> same_key b a"
  by (auto simp: same_key_def dest: py_eq_sym)

lemma same_key_trans: "same_key a b \<Longrightarrow> same_key b c \<Longrightarrow> same_key a c"
  by (auto simp: same_key_def dest: py_eq_trans)

lemma pd_eq_same_key: "pd_eq a b \<Longrightarrow> same_key a b"
  by (simp add: pd_eq_def same_key_def)

lemma pd_eq_not_null: "pd_eq a b \<Longrightarrow> \<not> is_null a \<and> \<not> is_null b"
  by (simp add: pd_eq_def)

lemma same_key_pd_eq: "same_key a b \<Longrightarrow> \<not> is_null a \<Longrightarrow> pd_eq a b"
  by (cases a; cases b) (auto simp: same_key_def pd_eq_def py_eq_def split: if_splits)

lemma pd_eq_refl: "\<not> is_null a \<Longrightarrow> pd_eq a a"
  by (cases a) (auto simp: pd_eq_def py_eq_def)

lemma pd_unique_Nil: "pd_unique [] = []"
  by (simp add: pd_unique_def)

lemma pd_unique_snoc:
  "pd_unique (xs @ [x]) =
     (if list_ex (\<lambda>k. same_key k x) (pd_unique xs) then pd_unique xs else pd_unique xs @ [x])"
  by (simp add: pd_unique_def)

lemma pd_unique_subset: "set (pd_unique xs) \<subseteq> set xs"
  by (induction xs rule: rev_induct) (auto simp: pd_unique_Nil pd_unique_snoc)

lemma pd_unique_covers: "x \<in> set xs \<Longrightarrow> \<exists>k\<in>set (pd_unique xs). same_key k x"
proof (induction xs rule: rev_induct)
  case Nil
  then show ?case by simp
next
  case (snoc y ys)
  show ?case
  proof (cases "x \<in> set ys")
    case True
    then obtain k where "k \<in> set (pd_unique ys)" "same_key k x"
      using snoc.IH by blast
    then show ?thesis by (auto simp: pd_unique_snoc)
  next
    case False
    then have "x = y" using snoc.prems by simp
    then show ?thesis
      by (auto simp: pd_unique_snoc list_ex_iff same_key_def)
  qed
qed

lemma pd_unique_pairwise: "sorted_wrt (\<lambda>a b. \<not> same_key a b) (pd_unique xs)"
  by (induction xs rule: rev_induct)
    (auto simp: pd_unique_Nil pd_unique_snoc sorted_wrt_append list_ex_iff)

definition first_index :: "pyval list \<Rightarrow> pyval \<Rightarrow> nat" where
  "first_index xs k = length (takeWhile (\<lambda>y. \<not> pd_eq y k) xs)"

lemma takeWhile_shorter: "\<exists>y\<in>set xs. \<not> P y \<Longrightarrow> length (takeWhile P xs) < length xs"
  by (induction xs) auto

lemma first_index_present:
  assumes "y \<in> set xs" and "pd_eq y k"
  shows "first_index (xs @ zs) k = first_index xs k \<and> first_index xs k < length xs"
proof -
  have "takeWhile (\<lambda>y. \<not> pd_eq y k) (xs @ zs) = takeWhile (\<lambda>y. \<not> pd_eq y k) xs"
    using assms by (intro takeWhile_append1) auto
  moreover have "length (takeWhile (\<lambda>y. \<not> pd_eq y k) xs) < length xs"
    using assms by (intro takeWhile_shorter) auto
  ultimately show ?thesis by (simp add: first_index_def)
qed

lemma first_index_absent:
  "\<forall>y\<in>set xs. \<not> pd_eq y k \<Longrightarrow> \<not> is_null k \<Longrightarrow> first_index (xs @ [k]) k = length xs"
  by (simp add: first_index_def pd_eq_refl)

lemma pd_unique_first_order:
  "sorted_wrt (\<lambda>a b. first_index xs a < first_index xs b)
     (filter (\<lambda>k. \<not> is_null k) (pd_unique xs))"
proof (induction xs rule: rev_induct)
  case Nil
  then show ?case by (simp add: pd_unique_Nil)
next
  case (snoc x xs)
  have old: "first_index (xs @ [x]) k = first_index xs k \<and> first_index xs k < length xs"
    if "k \<in> set (pd_unique xs)" "\<not> is_null k" for k
  proof -
    have "k \<in> set xs" using that pd_unique_subset by blast
    moreover have "pd_eq k k" using that by (simp add: pd_eq_refl)
    ultimately show ?thesis by (rule first_index_present)
  qed
  have keep: "sorted_wrt (\<lambda>a b. first_index (xs @ [x]) a < first_index (xs @ [x]) b)
     (filter (\<lambda>k. \<not> is_null k) (pd_unique xs))"
    using snoc.IH
    by (rule sorted_wrt_mono_rel [rotated]) (simp add: old)
  show ?case
  proof (cases "list_ex (\<lambda>k. same_key k x) (pd_unique xs) \<or> is_null x")
    case True
    then show ?thesis using keep by (auto simp: pd_unique_snoc)
  next
    case False
    then have new: "\<not> list_ex (\<lambda>k. same_key k x) (pd_unique xs)" and nn: "\<not> is_null x"
      by auto
    have "\<not> pd_eq y x" if yin: "y \<in> set xs" for y
    proof
      assume e: "pd_eq y x"
      obtain k where k: "k \<in> set (pd_unique xs)" "same_key k y"
        using pd_unique_covers [OF yin] by blast
      have "same_key k x"
        using k(2) e same_key_trans pd_eq_same_key by blast
      then show False using new k(1) by (auto simp: list_ex_iff)
    qed
    then have "first_index (xs @ [x]) x = length xs"
      using nn by (simp add: first_index_absent)
    then show ?thesis
      using keep new nn old by (auto simp: pd_unique_snoc sorted_wrt_append)
  qed
qed


lemma sort_values_Nil: "(sort_values xs = []) = (xs = [])"
proof -
  have "length (sort_values xs) = length xs"
    by (simp add: sort_values_def)
  then show ?thesis
    by (cases xs) (auto simp: sort_values_def)
qed

lemma set_sort_values: "set (sort_values xs) = set xs"
  by (simp add: sort_values_def)

lemma client_groups_alt:
  "client_groups df =
     map (\<lambda>k. (k, sort_values (filter (\<lambda>r. pd_eq (r ClientId) k) df)))
       (filter (\<lambda>k. filter (\<lambda>r. pd_eq (r ClientId) k) df \<noteq> [])
          (pd_unique (map (\<lambda>r. r ClientId) df)))"
proof -
  have "concat (map (\<lambda>k. let d = sort_values (f k) in if length d = 0 then [] else [(k, d)]) K)
      = map (\<lambda>k. (k, sort_values (f k))) (filter (\<lambda>k. f k \<noteq> []) K)"
    for f :: "pyval \<Rightarrow> df_row list" and K
    by (induction K) (auto simp: sort_values_Nil Let_def)
  then show ?thesis by (simp add: client_groups_def)
qed

lemma first_row_first_index: "first_row df k = first_index (map (\<lambda>r. r ClientId) df) k"
  by (simp add: first_row_def first_index_def takeWhile_map comp_def)

lemma sorted_wrt_conj:
  "sorted_wrt (\<lambda>a b. P a b \<and> Q a b) xs = (sorted_wrt P xs \<and> sorted_wrt Q xs)"
  by (induction xs) auto

lemma group_key_not_null:
  "filter (\<lambda>r. pd_eq (r ClientId) k) df \<noteq> [] \<Longrightarrow> \<not> is_null k"
  by (auto simp: filter_empty_conv pd_eq_def)

lemma client_groups_order:
  "sorted_wrt (\<lambda>a b. \<not> pd_eq (fst a) (fst b) \<and> first_row df (fst a) < first_row df (fst b))
     (client_groups df)"
proof -
  let ?K = "pd_unique (map (\<lambda>r. r ClientId) df)"
  let ?ne = "\<lambda>k. filter (\<lambda>r. pd_eq (r ClientId) k) df \<noteq> []"
  have a: "sorted_wrt (\<lambda>a b. \<not> pd_eq a b) (filter (\<lambda>k. \<not> is_null k) ?K)"
    using pd_unique_pairwise [of "map (\<lambda>r. r ClientId) df"]
    by (intro sorted_wrt_filter) (erule sorted_wrt_mono_rel [rotated], auto dest: pd_eq_same_key)
  have b: "sorted_wrt (\<lambda>a b. first_row df a < first_row df b) (filter (\<lambda>k. \<not> is_null k) ?K)"
    using pd_unique_first_order [of "map (\<lambda>r. r ClientId) df"]
    by (simp add: first_row_first_index)
  have c: "filter ?ne ?K = filter ?ne (filter (\<lambda>k. \<not> is_null k) ?K)"
    using group_key_not_null [of _ df] by (auto intro: filter_cong)
  have "sorted_wrt (\<lambda>a b. \<not> pd_eq a b \<and> first_row df a < first_row df b)
          (filter ?ne (filter (\<lambda>k. \<not> is_null k) ?K))"
    using a b by (intro sorted_wrt_filter [where f = "\<lambda>a b. \<not> pd_eq a b \<and> first_row df a < first_row df b"
          and xs = "filter (\<lambda>k. \<not> is_null k) ?K"])
      (simp add: sorted_wrt_conj)
  then have "sorted_wrt (\<lambda>a b. \<not> pd_eq a b \<and> first_row df a < first_row df b) (filter ?ne ?K)"
    using c by simp
  then show ?thesis
    by (simp add: client_groups_alt sorted_wrt_map)
qed

lemma one_match:
  "sorted_wrt (\<lambda>a b. \<not> same_key a b) K \<Longrightarrow> k0 \<in> set K \<Longrightarrow> pd_eq x k0 \<Longrightarrow>
     concat (map (\<lambda>k. if pd_eq x k then [r] else []) K) = [r]"
proof (induction K)
  case Nil
  then show ?case by simp
next
  case (Cons k K)
  show ?case
  proof (cases "pd_eq x k")
    case True
    have "\<not> pd_eq x k'" if "k' \<in> set K" for k'
    proof
      assume "pd_eq x k'"
      then have "same_key k k'"
        using True pd_eq_same_key same_key_sym same_key_trans by blast
      then show False using Cons.prems(1) that by auto
    qed
    then have "concat (map (\<lambda>k. if pd_eq x k then [r] else []) K) = []"
      by (induction K) auto
    then show ?thesis using True by simp
  next
    case False
    then have "k0 \<in> set K" using Cons.prems by auto
    then show ?thesis using False Cons by simp
  qed
qed

lemma no_match:
  "is_null x \<Longrightarrow> concat (map (\<lambda>k. if pd_eq x k then [r] else []) K) = []"
  by (induction K) (auto simp: pd_eq_def)

lemma mset_concat_append:
  "mset (concat (map (\<lambda>k. f k @ g k) K)) = mset (concat (map f K)) + mset (concat (map g K))"
  by (induction K) auto

lemma groups_cover:
  assumes "sorted_wrt (\<lambda>a b. \<not> same_key a b) K"
    and "\<forall>r\<in>set rows. \<exists>k\<in>set K. same_key k (r ClientId)"
  shows "mset (concat (map (\<lambda>k. filter (\<lambda>r. pd_eq (r ClientId) k) rows) K))
     = mset (filter (\<lambda>r. \<not> is_null (r ClientId)) rows)"
  using assms(2)
proof (induction rows)
  case Nil
  have "concat (map (\<lambda>k. []) K) = ([] :: df_row list)" by (induction K) auto
  then show ?case by simp
next
  case (Cons r rows)
  have split: "(\<lambda>k. filter (\<lambda>r. pd_eq (r ClientId) k) (r # rows))
      = (\<lambda>k. (if pd_eq (r ClientId) k then [r] else []) @ filter (\<lambda>r. pd_eq (r ClientId) k) rows)"
    by auto
  have here: "concat (map (\<lambda>k. if pd_eq (r ClientId) k then [r] else []) K)
      = (if is_null (r ClientId) then [] else [r])"
  proof (cases "is_null (r ClientId)")
    case True
    then show ?thesis by (simp add: no_match)
  next
    case False
    obtain k0 where k0: "k0 \<in> set K" "same_key k0 (r ClientId)"
      using Cons.prems by auto
    have "pd_eq (r ClientId) k0"
      using k0(2) False same_key_sym same_key_pd_eq by blast
    then show ?thesis
      using one_match [OF assms(1) k0(1)] False by simp
  qed
  have "mset (concat (map (\<lambda>k. filter (\<lambda>r. pd_eq (r ClientId) k) rows) K))
     = mset (filter (\<lambda>r. \<not> is_null (r ClientId)) rows)"
    using Cons by simp
  then show ?case
    unfolding split mset_concat_append here by simp
qed

lemma concat_filter_nonempty: "concat (map f (filter (\<lambda>k. f k \<noteq> []) K)) = concat (map f K)"
  by (induction K) auto

lemma mset_concat_cong:
  "(\<And>k. mset (f k) = mset (g k)) \<Longrightarrow> mset (concat (map f K)) = mset (concat (map g K))"
  by (induction K) auto

lemma client_groups_cover:
  "mset (concat (map snd (client_groups df)))
     = filter_mset (\<lambda>r. \<not> is_null (r ClientId)) (mset df)"
proof -
  let ?K = "pd_unique (map (\<lambda>r. r ClientId) df)"
  let ?f = "\<lambda>k. filter (\<lambda>r. pd_eq (r ClientId) k) df"
  have "concat (map snd (client_groups df))
      = concat (map (\<lambda>k. sort_values (?f k)) (filter (\<lambda>k. ?f k \<noteq> []) ?K))"
    by (simp add: client_groups_alt comp_def)
  moreover have "mset (concat (map (\<lambda>k. sort_values (?f k)) (filter (\<lambda>k. ?f k \<noteq> []) ?K)))
      = mset (concat (map ?f (filter (\<lambda>k. ?f k \<noteq> []) ?K)))"
    by (rule mset_concat_cong) (simp add: sort_values_def)
  ultimately have "mset (concat (map snd (client_groups df)))
      = mset (concat (map ?f (filter (\<lambda>k. ?f k \<noteq> []) ?K)))"
    by simp
  also have "\<dots> = mset (concat (map ?f ?K))"
    by (simp only: concat_filter_nonempty)
  also have "\<dots> = mset (filter (\<lambda>r. \<not> is_null (r ClientId)) df)"
    using pd_unique_pairwise [of "map (\<lambda>r. r ClientId) df"]
      pd_unique_covers [of _ "map (\<lambda>r. r ClientId) df"]
    by (intro groups_cover) auto
  finally show ?thesis by simp
qed

lemma client_groups_members:
  "(k, g) \<in> set (client_groups df) \<Longrightarrow>
     g \<noteq> [] \<and> set g = {r \<in> set df. pd_eq (r ClientId) k}"
  by (auto simp: client_groups_alt sort_values_Nil set_sort_values)

text \<open>
  C3. The groups partition the records that have a client identifier: taken together
  they hold each such record exactly as often as the dataset does, and a record without
  an identifier is in no group. The keys of two groups are never equal, a group holds
  exactly the records whose identifier equals its key, the groups come in the order in
  which their first record appears in the dataset, and no group is empty.
\<close>

theorem client_groups_partition:
  "mset (concat (map snd (client_groups df)))
     = filter_mset (\<lambda>r. \<not> is_null (r ClientId)) (mset df)
   \<and> sorted_wrt (\<lambda>a b. \<not> pd_eq (fst a) (fst b) \<and> first_row df (fst a) < first_row df (fst b))
         (client_groups df)
   \<and> (\<forall>(k, g) \<in> set (client_groups df). g \<noteq> [] \<and> set g = {r \<in> set df. pd_eq (r ClientId) k})"
  using client_groups_cover [of df] client_groups_order [of df] client_groups_members [of _ _ df]
  by blast

text \<open>An example row: the three columns given, every other column missing.\<close>

definition example_row :: "pyval \<Rightarrow> pyval \<Rightarrow> pyval \<Rightarrow> df_row" where
  "example_row cid name status = (\<lambda>c. PNaN)(ClientId := cid, Name := name, Status := status)"

theorem client_groups_partition_witness:
  "client_groups
     [example_row (PInt 2002) (PStr (ascii ''A'')) (PStr [25298, 20449]),
      example_row (PInt 7) PNaN PNaN,
      example_row PNaN (PStr (ascii ''B'')) (PStr [25298, 20449]),
      example_row (PInt 2002) (PStr (ascii ''A'')) (PStr ([33719, 24471] @ ascii ''UO''))]
   = [(PInt 2002,
        [example_row (PInt 2002) (PStr (ascii ''A'')) (PStr ([33719, 24471] @ ascii ''UO'')),
         example_row (PInt 2002) (PStr (ascii ''A'')) (PStr [25298, 20449])]),
      (PInt 7, [example_row (PInt 7) PNaN PNaN])]
   \<and> first_row
     [example_row (PInt 2002) (PStr (ascii ''A'')) (PStr [25298, 20449]),
      example_row (PInt 7) PNaN PNaN,
      example_row PNaN (PStr (ascii ''B'')) (PStr [25298, 20449]),
      example_row (PInt 2002) (PStr (ascii ''A'')) (PStr ([33719, 24471] @ ascii ''UO''))]
     (PInt 7) = 1"
  using client_groups_partition
    [where df = "[example_row (PInt 2002) (PStr (ascii ''A'')) (PStr [25298, 20449]),
      example_row (PInt 7) PNaN PNaN,
      example_row PNaN (PStr (ascii ''B'')) (PStr [25298, 20449]),
      example_row (PInt 2002) (PStr (ascii ''A'')) (PStr ([33719, 24471] @ ascii ''UO''))]"]
  by (simp add: client_groups_def sort_values_def pd_unique_def example_row_def same_key_def
      py_eq_def pd_eq_def result_priority_def ascii_def first_row_def)

lemma sort_values_stable_key:
  "filter (\<lambda>r. (result_priority (r Status), r Status) = (p, st)) (sort_values g)
     = filter (\<lambda>r. (result_priority (r Status), r Status) = (p, st)) g"
proof -
  let ?f = "\<lambda>r. (result_priority (r Status), status_order (r Status))"
  let ?k = "(result_priority st, status_order st)"
  let ?P = "\<lambda>r. (result_priority (r Status), r Status) = (p, st)"
  have pre: "filter ?P xs = filter ?P (filter (\<lambda>r. ?f r = ?k) xs)" for xs :: "df_row list"
    by (induction xs) auto
  have "filter ?P (sort_key ?f g) = filter ?P (filter (\<lambda>r. ?f r = ?k) (sort_key ?f g))"
    by (rule pre)
  also have "\<dots> = filter ?P (filter (\<lambda>r. ?f r = ?k) g)"
    by (simp only: sort_key_stable)
  also have "\<dots> = filter ?P g"
    by (rule pre [symmetric])
  finally show ?thesis
    unfolding sort_values_def .
qed

lemma sort_values_sorted:
  "sorted (map (\<lambda>r. (result_priority (r Status), status_order (r Status))) (sort_values g))"
  by (simp add: sort_values_def)

lemma result_priority_table:
  "result_priority (PStr ([33719, 24471] @ ascii ''CAS/COE'')) = 1
   \<and> result_priority (PStr ([33719, 24471] @ ascii ''UO'')) = 2
   \<and> result_priority (PStr ([33719, 24471] @ ascii ''CO'')) = 3
   \<and> result_priority (PStr [25298, 20449]) = 4
   \<and> result_priority (PStr [22823, 23398, 25764, 38144]) = 5"
  by (simp add: result_priority_def ascii_def)

lemma result_priority_default:
  "x \<notin> {PStr ([33719, 24471] @ ascii ''CAS/COE''), PStr ([33719, 24471] @ ascii ''UO''),
          PStr ([33719, 24471] @ ascii ''CO''), PStr [25298, 20449],
          PStr [22823, 23398, 25764, 38144]} \<Longrightarrow> result_priority x = 6"
  by (cases x) (simp_all add: result_priority_def)

text \<open>
  C4. In every client group the records are in ascending order of
  (priority rank, status), and the records that share a rank and a status stand in the
  order they have in the dataset; the rank is 1 to 5 on the five statuses of the table
  and 6 on every other value.
\<close>

theorem client_groups_ranking_stable:
  "(\<forall>(k, g) \<in> set (client_groups df).
       filter (\<lambda>r. (result_priority (r Status), r Status) = (p, st)) g
         = filter (\<lambda>r. (result_priority (r Status), r Status) = (p, st))
             (filter (\<lambda>r. pd_eq (r ClientId) k) df)
       \<and> sorted (map (\<lambda>r. (result_priority (r Status), status_order (r Status))) g))
   \<and> result_priority (PStr ([33719, 24471] @ ascii ''CAS/COE'')) = 1
   \<and> result_priority (PStr ([33719, 24471] @ ascii ''UO'')) = 2
   \<and> result_priority (PStr ([33719, 24471] @ ascii ''CO'')) = 3
   \<and> result_priority (PStr [25298, 20449]) = 4
   \<and> result_priority (PStr [22823, 23398, 25764, 38144]) = 5
   \<and> (x \<notin> {PStr ([33719, 24471] @ ascii ''CAS/COE''), PStr ([33719, 24471] @ ascii ''UO''),
          PStr ([33719, 24471] @ ascii ''CO''), PStr [25298, 20449],
          PStr [22823, 23398, 25764, 38144]} \<longrightarrow> result_priority x = 6)"
proof -
  have "filter (\<lambda>r. (result_priority (r Status), r Status) = (p, st)) g
         = filter (\<lambda>r. (result_priority (r Status), r Status) = (p, st))
             (filter (\<lambda>r. pd_eq (r ClientId) k) df)
       \<and> sorted (map (\<lambda>r. (result_priority (r Status), status_order (r Status))) g)"
    if "(k, g) \<in> set (client_groups df)" for k g
  proof -
    have "g = sort_values (filter (\<lambda>r. pd_eq (r ClientId) k) df)"
      using that by (auto simp: client_groups_alt)
    then show ?thesis
      by (simp only: sort_values_stable_key sort_values_sorted)
  qed
  then show ?thesis
    using result_priority_table result_priority_default [of x] by blast
qed

theorem client_groups_ranking_stable_witness:
  "client_groups
     [example_row (PInt 1) (PStr (ascii ''A'')) (PStr (ascii ''zz'')),
      example_row (PInt 1) (PStr (ascii ''B'')) (PStr [25298, 20449]),
      example_row (PInt 1) (PStr (ascii ''C'')) (PStr (ascii ''zz'')),
      example_row (PInt 1) (PStr (ascii ''D'')) PNaN,
      example_row (PInt 1) (PStr (ascii ''E'')) (PStr (ascii ''aa''))]
   = [(PInt 1,
       [example_row (PInt 1) (PStr (ascii ''B'')) (PStr [25298, 20449]),
        example_row (PInt 1) (PStr (ascii ''E'')) (PStr (ascii ''aa'')),
        example_row (PInt 1) (PStr (ascii ''A'')) (PStr (ascii ''zz'')),
        example_row (PInt 1) (PStr (ascii ''C'')) (PStr (ascii ''zz'')),
        example_row (PInt 1) (PStr (ascii ''D'')) PNaN])]
   \<and> PStr (ascii ''zz'') \<notin>
        {PStr ([33719, 24471] @ ascii ''CAS/COE''), PStr ([33719, 24471] @ ascii ''UO''),
          PStr ([33719, 24471] @ ascii ''CO''), PStr [25298, 20449],
          PStr [22823, 23398, 25764, 38144]}
   \<and> result_priority (PStr (ascii ''zz'')) = 6"
  using client_groups_ranking_stable
    [where df = "[example_row (PInt 1) (PStr (ascii ''A'')) (PStr (ascii ''zz'')),
      example_row (PInt 1) (PStr (ascii ''B'')) (PStr [25298, 20449]),
      example_row (PInt 1) (PStr (ascii ''C'')) (PStr (ascii ''zz'')),
      example_row (PInt 1) (PStr (ascii ''D'')) PNaN,
      example_row (PInt 1) (PStr (ascii ''E'')) (PStr (ascii ''aa''))]"
      and p = 6 and st = "PStr (ascii ''zz'')" and x = "PStr (ascii ''zz'')"]
  by (simp add: client_groups_def sort_values_def pd_unique_def example_row_def same_key_def
      py_eq_def pd_eq_def result_priority_def ascii_def)

text \<open>
  The specification's reading of the client name: the first name of the group that is
  not missing, and the placeholder when there is none.
\<close>

definition spec_client_name :: "df_row list \<Rightarrow> pyval" where
  "spec_client_name g =
     (case filter (\<lambda>r. \<not> is_null (r Name)) g of
        [] \<Rightarrow> PStr [26410, 30693, 22995, 21517]
      | r # _ \<Rightarrow> r Name)"

text \<open>
  C6, as amended. The name in the header of a client's sheet is the name of the first
  record of the ranked group when that name is present, and the placeholder when it is
  missing or when the dataset has no name column. It is the first non-null name of the
  group whenever the first ranked record has a name or no record of the group has one.
\<close>

theorem client_name_first_ranked:
  "(\<forall>(k, g) \<in> set (client_groups df).
      client_name cols g =
        (if Name \<in> set cols \<and> \<not> is_null (hd g Name) then hd g Name
         else PStr [26410, 30693, 22995, 21517])
      \<and> (Name \<in> set cols \<and> (\<not> is_null (hd g Name) \<or> (\<forall>r\<in>set g. is_null (r Name)))
           \<longrightarrow> client_name cols g = spec_client_name g))"
proof -
  have "client_name cols g =
        (if Name \<in> set cols \<and> \<not> is_null (hd g Name) then hd g Name
         else PStr [26410, 30693, 22995, 21517])
      \<and> (Name \<in> set cols \<and> (\<not> is_null (hd g Name) \<or> (\<forall>r\<in>set g. is_null (r Name)))
           \<longrightarrow> client_name cols g = spec_client_name g)"
    if "(k, g) \<in> set (client_groups df)" for k g
  proof -
    have "g \<noteq> []" using that client_groups_members by blast
    then obtain r rs where g: "g = r # rs" by (cases g) auto
    have "filter (\<lambda>r. \<not> is_null (r Name)) rs = []" if "\<forall>r\<in>set rs. is_null (r Name)"
      using that by (simp add: filter_empty_conv)
    then show ?thesis
      by (auto simp: g client_name_def spec_client_name_def)
  qed
  then show ?thesis by blast
qed

theorem client_name_first_ranked_witness:
  "client_groups
     [example_row (PInt 1) (PStr (ascii ''A'')) (PStr [25298, 20449]),
      example_row (PInt 1) PNaN (PStr (ascii ''zz''))]
   = [(PInt 1,
       [example_row (PInt 1) (PStr (ascii ''A'')) (PStr [25298, 20449]),
        example_row (PInt 1) PNaN (PStr (ascii ''zz''))])]
   \<and> client_name [ClientId, Name, Status, DepositDeadline]
       [example_row (PInt 1) (PStr (ascii ''A'')) (PStr [25298, 20449]),
        example_row (PInt 1) PNaN (PStr (ascii ''zz''))] = PStr (ascii ''A'')
   \<and> spec_client_name
       [example_row (PInt 1) (PStr (ascii ''A'')) (PStr [25298, 20449]),
        example_row (PInt 1) PNaN (PStr (ascii ''zz''))] = PStr (ascii ''A'')"
  using client_name_first_ranked
    [where df = "[example_row (PInt 1) (PStr (ascii ''A'')) (PStr [25298, 20449]),
      example_row (PInt 1) PNaN (PStr (ascii ''zz''))]"
      and cols = "[ClientId, Name, Status, DepositDeadline]"]
  by (simp add: client_groups_def sort_values_def pd_unique_def example_row_def same_key_def
      py_eq_def pd_eq_def result_priority_def ascii_def client_name_def spec_client_name_def)

text \<open>
  The claim as stated fails: in the group below the record ranked first (status
  obtained UO, rank 2) has no name and the second (rejected, rank 4) is named B. The
  first non-null name of the group is B, in the order of the dataset and in the ranked
  order alike; the header gets the placeholder.
\<close>

theorem client_name_counterexample:
  "client_groups
     [example_row (PInt 1) PNaN (PStr ([33719, 24471] @ ascii ''UO'')),
      example_row (PInt 1) (PStr (ascii ''B'')) (PStr [25298, 20449])]
   = [(PInt 1,
       [example_row (PInt 1) PNaN (PStr ([33719, 24471] @ ascii ''UO'')),
        example_row (PInt 1) (PStr (ascii ''B'')) (PStr [25298, 20449])])]
   \<and> client_name [ClientId, Name, Status, DepositDeadline]
       [example_row (PInt 1) PNaN (PStr ([33719, 24471] @ ascii ''UO'')),
        example_row (PInt 1) (PStr (ascii ''B'')) (PStr [25298, 20449])]
       = PStr [26410, 30693, 22995, 21517]
   \<and> spec_client_name
       [example_row (PInt 1) PNaN (PStr ([33719, 24471] @ ascii ''UO'')),
        example_row (PInt 1) (PStr (ascii ''B'')) (PStr [25298, 20449])] = PStr (ascii ''B'')
   \<and> PStr (ascii ''B'') \<noteq> PStr [26410, 30693, 22995, 21517]"
  by (simp add: client_groups_def sort_values_def pd_unique_def example_row_def same_key_def
      py_eq_def pd_eq_def result_priority_def ascii_def client_name_def spec_client_name_def)

section \<open>Library values and worksheets\<close>

text \<open>
  What the source takes from its libraries and what no code of the repository fixes:
  \<open>int_other\<close>, the builtin \<open>int\<close> outside plain decimal literals;
  \<open>str_timestamp\<close>, the text \<open>str\<close> gives a timestamp; \<open>to_datetime\<close>, the date parser
  of pandas, which raises, or returns \<open>NaT\<close>, or returns a timestamp, of which the day is
  kept.
\<close>

datatype parsed = Raised | NotATime | Day int

record pylib =
  int_other :: "ustr \<Rightarrow> int option"
  str_timestamp :: "int \<Rightarrow> ustr"
  to_datetime :: "ustr \<Rightarrow> parsed"

fun py_str :: "pylib \<Rightarrow> pyval \<Rightarrow> ustr" where
  "py_str L PNone = ascii ''None''"
| "py_str L PNaN = ascii ''nan''"
| "py_str L PNaT = ascii ''NaT''"
| "py_str L (PBool b) = (if b then ascii ''True'' else ascii ''False'')"
| "py_str L (PInt n) = str_int n"
| "py_str L (PStr s) = s"
| "py_str L (PTimestamp d) = str_timestamp L d"

fun truthy :: "pyval \<Rightarrow> bool" where
  "truthy PNone = False"
| "truthy PNaN = True"
| "truthy PNaT = True"
| "truthy (PBool b) = b"
| "truthy (PInt n) = (n \<noteq> 0)"
| "truthy (PStr s) = (s \<noteq> [])"
| "truthy (PTimestamp d) = True"

text \<open>
  The whitespace of \<open>str.split()\<close> and \<open>str.strip()\<close>: U+0009 to U+000D, U+001C to
  U+0020, U+0085, U+00A0, U+1680, U+2000 to U+200A, U+2028, U+2029, U+202F, U+205F and
  U+3000.
\<close>

definition is_space :: "nat \<Rightarrow> bool" where
  "is_space c =
     ((9 \<le> c \<and> c \<le> 13) \<or> (28 \<le> c \<and> c \<le> 32) \<or> c = 133 \<or> c = 160 \<or> c = 5760
      \<or> (8192 \<le> c \<and> c \<le> 8202) \<or> c = 8232 \<or> c = 8233 \<or> c = 8239 \<or> c = 8287
      \<or> c = 12288)"

definition strip :: "ustr \<Rightarrow> ustr" where
  "strip s = rev (dropWhile is_space (rev (dropWhile is_space s)))"

text \<open>\<open>s.split()[0]\<close>, for a string that has a character other than whitespace.\<close>

definition first_token :: "ustr \<Rightarrow> ustr" where
  "first_token s = takeWhile (\<lambda>c. \<not> is_space c) (dropWhile is_space s)"

text \<open>\<open>sub in s\<close> for strings.\<close>

fun contains :: "ustr \<Rightarrow> ustr \<Rightarrow> bool" where
  "contains sub [] = (sub = [])"
| "contains sub (c # cs) = (startswith (c # cs) sub \<or> contains sub cs)"

text \<open>
  \<open>parse_date\<close> (lines 133 to 143). A string with a colon (code point 58) is cut to
  its first token, which exists since the colon is not whitespace; any exception of the
  parser gives \<open>None\<close>; a value that is neither missing nor a string is returned as it
  is.
\<close>

definition parse_date :: "pylib \<Rightarrow> pyval \<Rightarrow> pyval" where
  "parse_date L date_str =
     (if is_null date_str then PNone
      else case date_str of
        PStr s \<Rightarrow>
          (case to_datetime L (if 58 \<in> set s then first_token s else s) of
             Day d \<Rightarrow> PTimestamp d
           | NotATime \<Rightarrow> PNaT
           | Raised \<Rightarrow> PNone)
      | _ \<Rightarrow> date_str)"

text \<open>
  A cell has a value, a fill colour and a font; alignment, widths, merged ranges and
  the size and underline of a font are never read back and are left out.
  A worksheet is the dictionary of its cells, keyed by (row, column) from 1;
  \<open>max_row\<close> and \<open>max_column\<close> are the largest row and column of a key and 1 on a sheet
  without cells. Cells are never deleted, so both are kept up to date on each write.
\<close>

datatype font = Font (font_color: "string option") (font_bold: bool)

record cell =
  cval :: pyval
  cfill :: "string option"
  cfont :: "font option"

record worksheet =
  cells :: "nat \<times> nat \<Rightarrow> cell option"
  max_row :: nat
  max_column :: nat

definition blank :: cell where
  "blank = \<lparr>cval = PNone, cfill = None, cfont = None\<rparr>"

definition new_sheet :: worksheet where
  "new_sheet = \<lparr>cells = (\<lambda>_. None), max_row = 1, max_column = 1\<rparr>"

definition get_cell :: "worksheet \<Rightarrow> nat \<Rightarrow> nat \<Rightarrow> cell" where
  "get_cell ws r c = (case cells ws (r, c) of None \<Rightarrow> blank | Some x \<Rightarrow> x)"

definition put_cell :: "worksheet \<Rightarrow> nat \<Rightarrow> nat \<Rightarrow> cell \<Rightarrow> worksheet" where
  "put_cell ws r c x =
     ws\<lparr>cells := (cells ws)((r, c) \<mapsto> x),
        max_row := max (max_row ws) r,
        max_column := max (max_column ws) c\<rparr>"

text \<open>\<open>ws.cell(row=r, column=c).value\<close>.\<close>

definition cell_value :: "worksheet \<Rightarrow> nat \<Rightarrow> nat \<Rightarrow> pyval" where
  "cell_value ws r c = cval (get_cell ws r c)"

text \<open>
  \<open>ws.cell(row=r, column=c, value=v)\<close> makes the cell and assigns the value unless it
  is \<open>None\<close>; \<open>cell.value = v\<close>, \<open>cell.fill = ...\<close> and \<open>cell.font = ...\<close> assign.
\<close>

definition ws_cell :: "worksheet \<Rightarrow> nat \<Rightarrow> nat \<Rightarrow> pyval \<Rightarrow> worksheet" where
  "ws_cell ws r c v =
     put_cell ws r c (if v = PNone then get_cell ws r c else (get_cell ws r c)\<lparr>cval := v\<rparr>)"

definition set_value :: "worksheet \<Rightarrow> nat \<Rightarrow> nat \<Rightarrow> pyval \<Rightarrow> worksheet" where
  "set_value ws r c v = put_cell ws r c ((get_cell ws r c)\<lparr>cval := v\<rparr>)"

definition set_fill :: "worksheet \<Rightarrow> nat \<Rightarrow> nat \<Rightarrow> string \<Rightarrow> worksheet" where
  "set_fill ws r c colour = put_cell ws r c ((get_cell ws r c)\<lparr>cfill := Some colour\<rparr>)"

definition set_font :: "worksheet \<Rightarrow> nat \<Rightarrow> nat \<Rightarrow> font \<Rightarrow> worksheet" where
  "set_font ws r c f = put_cell ws r c ((get_cell ws r c)\<lparr>cfont := Some f\<rparr>)"

section \<open>The per-client sheet builder\<close>

text \<open>
  The countdown cell of a data row (lines 305 to 324), in column \<open>len(headers)\<close>. A
  deadline that is missing writes nothing; one that is not a timestamp has no
  \<open>date()\<close>, and the \<open>AttributeError\<close> is swallowed before any cell is made.
\<close>

definition write_countdown :: "worksheet \<Rightarrow> nat \<Rightarrow> nat \<Rightarrow> int \<Rightarrow> pyval \<Rightarrow> worksheet" where
  "write_countdown ws row_idx ncols today deadline =
     (if is_null deadline then ws
      else case deadline of
        PTimestamp d \<Rightarrow>
          (let days_left = d - today;
               ws1 = ws_cell ws row_idx ncols (PInt days_left)
           in if days_left \<le> 30 \<and> days_left > 0 then
                set_font (set_fill ws1 row_idx ncols ''FF0000'') row_idx ncols
                  (Font (Some ''FFFFFF'') False)
              else if days_left \<le> 0 then set_fill ws1 row_idx ncols ''808080''
              else ws1)
      | _ \<Rightarrow> ws)"

text \<open>
  The conditional format of the status column (lines 280 to 300): a fill colour and a
  font for a status that contains U+83B7 U+5F97 (obtained), for the rejected and
  withdrawn statuses, for the submitted one, for the two with a fee pending and for the
  one with documents missing.
\<close>

definition status_style :: "pylib \<Rightarrow> pyval \<Rightarrow> (string \<times> font) option" where
  "status_style L v =
     (if \<not> truthy v then None
      else if contains [33719, 24471] (py_str L v) then
        Some (''008000'', Font (Some ''FFFFFF'') True)
      else if v \<in> {PStr [25298, 20449], PStr [22823, 23398, 25764, 38144],
                    PStr [23398, 29983, 25918, 24323]} then
        Some (''808080'', Font None True)
      else if v = PStr [24050, 36882, 20132] then
        Some (''FFC222'', Font None True)
      else if v \<in> {PStr [26410, 36882, 45, 24453, 20132, 30003, 35831, 36153],
                    PStr [24050, 36882, 20132, 45, 30003, 35831, 36153, 24453, 20184]} then
        Some (''5F9EA0'', Font None True)
      else if v = PStr [26410, 36882, 45, 26448, 26009, 32570, 22833, 25110, 38656, 20462, 25913] then
        Some (''F08080'', Font None True)
      else None)"

text \<open>
  One cell of a data row (lines 270 to 300): the sanitized value is stored, the
  placeholder U+672A U+83B7 U+5F97 (not obtained) is replaced by the empty string, and
  the status column is coloured by the sanitized value.
\<close>

definition write_field :: "pylib \<Rightarrow> worksheet \<Rightarrow> nat \<Rightarrow> nat \<Rightarrow> column \<Rightarrow> pyval \<Rightarrow> worksheet" where
  "write_field L ws row_idx col_idx field raw =
     (let v = clean_excel_value raw;
          ws1 = ws_cell ws row_idx col_idx v;
          ws2 = (if v = PStr [26410, 33719, 24471] then set_value ws1 row_idx col_idx (PStr [])
                 else ws1)
      in if field = Status then
           (case status_style L v of
              Some (colour, f) \<Rightarrow> set_font (set_fill ws2 row_idx col_idx colour) row_idx col_idx f
            | None \<Rightarrow> ws2)
         else ws2)"

fun fill_fields :: "pylib \<Rightarrow> worksheet \<Rightarrow> nat \<Rightarrow> nat \<Rightarrow> column list \<Rightarrow> df_row \<Rightarrow> worksheet" where
  "fill_fields L ws row_idx col_idx [] row = ws"
| "fill_fields L ws row_idx col_idx (field # others) row =
     fill_fields L (write_field L ws row_idx col_idx field (row field)) row_idx (col_idx + 1)
       others row"

text \<open>
  The data rows (lines 266 to 324), from row 3: the display columns from column 1,
  then the countdown in column \<open>len(headers)\<close>, one more than the display columns.
\<close>

fun fill_rows :: "pylib \<Rightarrow> column list \<Rightarrow> int \<Rightarrow> worksheet \<Rightarrow> nat \<Rightarrow> df_row list \<Rightarrow> worksheet" where
  "fill_rows L display_columns today ws row_idx [] = ws"
| "fill_rows L display_columns today ws row_idx (row # rows) =
     fill_rows L display_columns today
       (write_countdown (fill_fields L ws row_idx 1 display_columns row) row_idx
          (length display_columns + 1) today (row DepositDeadline))
       (row_idx + 1) rows"

text \<open>A header row: each header in its cell, shaded light gray.\<close>

fun write_headers :: "worksheet \<Rightarrow> nat \<Rightarrow> nat \<Rightarrow> ustr list \<Rightarrow> worksheet" where
  "write_headers ws r c [] = ws"
| "write_headers ws r c (h # hs) =
     write_headers (set_fill (ws_cell ws r c (PStr h)) r c ''D3D3D3'') r (c + 1) hs"

text \<open>The names of the columns in the CSV file, as code points.\<close>

fun column_name :: "column \<Rightarrow> ustr" where
  "column_name ClientId = [23458, 25143, 105, 100]"
| "column_name Name = [22995, 21517]"
| "column_name Institution = [30003, 35831, 38498, 26657, 33521, 25991]"
| "column_name Program = [30003, 35831, 19987, 19994, 33521, 25991]"
| "column_name Status = [30003, 35831, 32467, 26524]"
| "column_name StudentNumber = ascii ''Student-Number''"
| "column_name AdmissionCondition = [20837, 23398, 26465, 20214]"
| "column_name LanguageDone = [26159, 21542, 23436, 25104, 35821, 35328, 26465, 20214]"
| "column_name LanguageCondition = [35821, 35328, 26465, 20214]"
| "column_name ReferenceDone = [26159, 21542, 23436, 25104, 25512, 33616, 20449, 26465, 20214]"
| "column_name ReferenceCondition = [25512, 33616, 20449, 26465, 20214]"
| "column_name DepositType = [25276, 37329, 31867, 22411]"
| "column_name DepositDeadline = [25276, 37329, 25130, 27490, 26085, 26399]"
| "column_name DepositDone = [26159, 21542, 23436, 25104, 25276, 37329, 26465, 20214]"
| "column_name DepositCondition = [25104, 25276, 37329, 26465, 20214]"

definition columns_to_keep :: "column list" where
  "columns_to_keep =
     [ClientId, Name, Institution, Program, Status, StudentNumber, AdmissionCondition,
      LanguageDone, LanguageCondition, ReferenceDone, ReferenceCondition,
      DepositType, DepositDeadline, DepositDone, DepositCondition]"

text \<open>
  \<open>existing_columns\<close> (line 117) for the set of columns of the CSV file, and
  \<open>display_columns\<close> (line 190).
\<close>

definition existing_columns_of :: "column set \<Rightarrow> column list" where
  "existing_columns_of csv_columns = filter (\<lambda>col. col \<in> csv_columns) columns_to_keep"

definition display_columns_of :: "column list \<Rightarrow> column list" where
  "display_columns_of existing_columns =
     filter (\<lambda>col. col \<notin> {ClientId, Name}) existing_columns"

text \<open>
  One client's sheet (lines 241 to 328): the linked name in A1, the mailbox link in
  column 14 of row 1, the headers in row 2 (the display columns and the countdown header),
  the data rows from row 3.
\<close>

definition build_client_sheet ::
  "pylib \<Rightarrow> column list \<Rightarrow> int \<Rightarrow> pyval \<Rightarrow> pyval \<Rightarrow> df_row list \<Rightarrow> worksheet" where
  "build_client_sheet L existing_columns today client_id name client_data =
     (let display_columns = display_columns_of existing_columns;
          crm_link = ascii ''http://crmuk.ukec.com/admin/school-apply/detail?id=''
                       @ py_str L client_id;
          ws1 = set_font
                  (set_value new_sheet 1 1
                     (PStr (link_formula (ascii '', '') crm_link (py_str L name))))
                  1 1 (Font (Some ''0000FF'') True);
          email_link = ascii ''http://crmuk.ukec.com/admin/customer-email/detail?id=''
                       @ py_str L client_id;
          ws2 = set_font
                  (set_value ws1 1 14
                     (PStr (link_formula (ascii '', '') email_link [37038, 31665])))
                  1 14 (Font (Some ''0000FF'') True);
          headers = map column_name display_columns
                      @ [[25276, 37329, 25130, 27490, 20498, 35745, 26102, 40, 22825, 41]];
          ws3 = write_headers ws2 2 1 headers
      in fill_rows L display_columns today ws3 3 client_data)"

text \<open>
  \<open>clean_sheet_name\<close> (lines 33 to 44) on the text of an identifier: the characters
  \<open>[ ] : * ? / \<close> and the backslash become underscores, the result is sanitized and cut
  to 31 characters.
\<close>

definition clean_sheet_name :: "ustr \<Rightarrow> ustr" where
  "clean_sheet_name name =
     (let cleaned_name =
            clean_str (map (\<lambda>c. if c \<in> {91, 93, 58, 42, 63, 47, 92} then 95 else c) name)
      in if length cleaned_name > 31 then take 31 cleaned_name else cleaned_name)"

text \<open>
  A workbook is the list of its sheets by title. The generated workbook starts with
  the default sheet \<open>Sheet\<close>; each client's sheet replaces a sheet of the same title
  (lines 237 to 241), and the default sheet is removed at the end (lines 331 to 332).
\<close>

type_synonym workbook = "(ustr \<times> worksheet) list"

definition sheetnames :: "workbook \<Rightarrow> ustr list" where
  "sheetnames wb = map fst wb"

definition remove_sheet :: "ustr \<Rightarrow> workbook \<Rightarrow> workbook" where
  "remove_sheet title wb = filter (\<lambda>s. fst s \<noteq> title) wb"

definition add_client_sheet ::
  "pylib \<Rightarrow> column list \<Rightarrow> int \<Rightarrow> pyval \<times> df_row list \<Rightarrow> workbook \<Rightarrow> workbook" where
  "add_client_sheet L existing_columns today entry offer_wb =
     (let client_id = fst entry;
          client_data = snd entry;
          name = client_name existing_columns client_data;
          title = clean_sheet_name (py_str L client_id);
          wb1 = (if title \<in> set (sheetnames offer_wb) then remove_sheet title offer_wb
                 else offer_wb)
      in wb1 @ [(title, build_client_sheet L existing_columns today client_id name client_data)])"

definition build_offer_wb :: "pylib \<Rightarrow> column list \<Rightarrow> int \<Rightarrow> df_row list \<Rightarrow> workbook" where
  "build_offer_wb L existing_columns today template_df =
     (let offer_wb = fold (add_client_sheet L existing_columns today)
                       (client_groups template_df) [(ascii ''Sheet'', new_sheet)]
      in if ascii ''Sheet'' \<in> set (sheetnames offer_wb) then remove_sheet (ascii ''Sheet'') offer_wb
         else offer_wb)"

lemma cells_put_cell:
  "cells (put_cell ws r c x) k = (if k = (r, c) then Some x else cells ws k)"
  by (simp add: put_cell_def)

lemma cells_ws_cell_other: "k \<noteq> (r, c) \<Longrightarrow> cells (ws_cell ws r c v) k = cells ws k"
  by (simp add: ws_cell_def cells_put_cell)

lemma cells_set_value_other: "k \<noteq> (r, c) \<Longrightarrow> cells (set_value ws r c v) k = cells ws k"
  by (simp add: set_value_def cells_put_cell)

lemma cells_set_fill_other: "k \<noteq> (r, c) \<Longrightarrow> cells (set_fill ws r c x) k = cells ws k"
  by (simp add: set_fill_def cells_put_cell)

lemma cells_set_font_other: "k \<noteq> (r, c) \<Longrightarrow> cells (set_font ws r c f) k = cells ws k"
  by (simp add: set_font_def cells_put_cell)

lemmas cells_other =
  cells_ws_cell_other cells_set_value_other cells_set_fill_other cells_set_font_other

lemma write_field_other:
  "k \<noteq> (r, c) \<Longrightarrow> cells (write_field L ws r c field raw) k = cells ws k"
  by (simp add: write_field_def Let_def cells_other split: option.splits prod.splits)

lemma fill_fields_other:
  "fst k \<noteq> r \<or> snd k < c \<or> c + length fs \<le> snd k \<Longrightarrow>
     cells (fill_fields L ws r c fs row) k = cells ws k"
proof (induction fs arbitrary: ws c)
  case Nil
  then show ?case by simp
next
  case (Cons f fs)
  have "k \<noteq> (r, c)" using Cons.prems by auto
  then have "cells (write_field L ws r c f (row f)) k = cells ws k"
    by (rule write_field_other)
  moreover have "cells (fill_fields L (write_field L ws r c f (row f)) r (c + 1) fs row) k
      = cells (write_field L ws r c f (row f)) k"
    using Cons.prems by (intro Cons.IH) auto
  ultimately show ?case by simp
qed

lemma write_countdown_other:
  "k \<noteq> (r, n) \<Longrightarrow> cells (write_countdown ws r n today dl) k = cells ws k"
  by (cases dl) (simp_all add: write_countdown_def Let_def cells_other)

lemma write_countdown_cell:
  "cells ws (r, n) = None \<Longrightarrow>
     cells (write_countdown ws r n today dl) (r, n) =
       (case dl of
          PTimestamp d \<Rightarrow>
            Some \<lparr>cval = PInt (d - today),
                  cfill = (if 0 < d - today \<and> d - today \<le> 30 then Some ''FF0000''
                           else if d - today \<le> 0 then Some ''808080'' else None),
                  cfont = (if 0 < d - today \<and> d - today \<le> 30
                           then Some (Font (Some ''FFFFFF'') False) else None)\<rparr>
        | _ \<Rightarrow> None)"
  by (cases dl)
    (simp_all add: write_countdown_def Let_def ws_cell_def set_fill_def set_font_def
      get_cell_def cells_put_cell blank_def)

lemma fill_rows_other:
  "fst k < r \<Longrightarrow> cells (fill_rows L disp today ws r rows) k = cells ws k"
proof (induction rows arbitrary: ws r)
  case Nil
  then show ?case by simp
next
  case (Cons row rows)
  have "cells (fill_fields L ws r 1 disp row) k = cells ws k"
    using Cons.prems by (intro fill_fields_other) auto
  moreover have "k \<noteq> (r, length disp + 1)" using Cons.prems by auto
  ultimately have "cells (write_countdown (fill_fields L ws r 1 disp row) r (length disp + 1)
      today (row DepositDeadline)) k = cells ws k"
    by (simp add: write_countdown_other)
  moreover have "fst k < r + 1" using Cons.prems by simp
  ultimately show ?case
    using Cons.IH [of "r + 1"] by simp
qed

lemma fill_rows_countdown:
  "i < length rows \<Longrightarrow> \<forall>j. cells ws (r + j, length disp + 1) = None \<Longrightarrow>
     cells (fill_rows L disp today ws r rows) (r + i, length disp + 1) =
       (case (rows ! i) DepositDeadline of
          PTimestamp d \<Rightarrow>
            Some \<lparr>cval = PInt (d - today),
                  cfill = (if 0 < d - today \<and> d - today \<le> 30 then Some ''FF0000''
                           else if d - today \<le> 0 then Some ''808080'' else None),
                  cfont = (if 0 < d - today \<and> d - today \<le> 30
                           then Some (Font (Some ''FFFFFF'') False) else None)\<rparr>
        | _ \<Rightarrow> None)"
proof (induction rows arbitrary: ws r i)
  case Nil
  then show ?case by simp
next
  case (Cons row rows)
  let ?n = "length disp + 1"
  let ?ws1 = "fill_fields L ws r 1 disp row"
  let ?ws2 = "write_countdown ?ws1 r ?n today (row DepositDeadline)"
  have f: "cells ?ws1 (r + j, ?n) = None" for j
    using Cons.prems(2) by (simp add: fill_fields_other)
  show ?case
  proof (cases i)
    case 0
    have "cells (fill_rows L disp today ?ws2 (r + 1) rows) (r, ?n) = cells ?ws2 (r, ?n)"
      by (intro fill_rows_other) simp
    then show ?thesis
      using 0 f [of 0] by (simp add: write_countdown_cell)
  next
    case (Suc i')
    have "cells ?ws2 (r + 1 + j, ?n) = None" for j
      using f [of "1 + j"] by (simp add: write_countdown_other add.assoc)
    then have "cells (fill_rows L disp today ?ws2 (r + 1) rows) (r + 1 + i', ?n) =
       (case (rows ! i') DepositDeadline of
          PTimestamp d \<Rightarrow>
            Some \<lparr>cval = PInt (d - today),
                  cfill = (if 0 < d - today \<and> d - today \<le> 30 then Some ''FF0000''
                           else if d - today \<le> 0 then Some ''808080'' else None),
                  cfont = (if 0 < d - today \<and> d - today \<le> 30
                           then Some (Font (Some ''FFFFFF'') False) else None)\<rparr>
        | _ \<Rightarrow> None)"
      using Cons.prems(1) Suc by (intro Cons.IH) auto
    then show ?thesis using Suc by simp
  qed
qed

lemma write_headers_other:
  "fst k \<noteq> r \<Longrightarrow> cells (write_headers ws r c hs) k = cells ws k"
proof (induction hs arbitrary: ws c)
  case Nil
  then show ?case by simp
next
  case (Cons h hs)
  have "k \<noteq> (r, c)" using Cons.prems by auto
  then show ?case
    using Cons by (simp add: cells_other)
qed

lemma build_client_sheet_countdown:
  assumes "i < length client_data"
  shows "cells (build_client_sheet L cols today cid name client_data)
       (3 + i, length (display_columns_of cols) + 1) =
       (case (client_data ! i) DepositDeadline of
          PTimestamp d \<Rightarrow>
            Some \<lparr>cval = PInt (d - today),
                  cfill = (if 0 < d - today \<and> d - today \<le> 30 then Some ''FF0000''
                           else if d - today \<le> 0 then Some ''808080'' else None),
                  cfont = (if 0 < d - today \<and> d - today \<le> 30
                           then Some (Font (Some ''FFFFFF'') False) else None)\<rparr>
        | _ \<Rightarrow> None)"
proof -
  have "cells (write_headers (set_font (set_value (set_font (set_value new_sheet 1 1 a) 1 1 b)
            1 14 c) 1 14 d) 2 1 hs) (3 + j, n) = None" for a b c d hs j n
    by (simp add: write_headers_other cells_other new_sheet_def)
  then show ?thesis
    unfolding build_client_sheet_def Let_def
    by (intro fill_rows_countdown [OF assms]) simp
qed

lemma parse_date_cases:
  "(is_null raw \<longrightarrow> parse_date L raw = PNone)
   \<and> parse_date L (PStr s) =
       (case to_datetime L (if 58 \<in> set s then first_token s else s) of
          Day d \<Rightarrow> PTimestamp d | NotATime \<Rightarrow> PNaT | Raised \<Rightarrow> PNone)"
  by (simp add: parse_date_def)

text \<open>
  C5. In the sheet of a client, the countdown cell of the record in data row \<open>i\<close>
  (sheet row \<open>3 + i\<close>, the column after the display columns) holds, for a deadline that
  is a timestamp, the number of days from today to the day of the deadline; the cell is
  gray with no font set when the number is at most 0, red with white text when it is
  between 1 and 30, and has no fill above 30. For any other deadline there is no cell.
  A missing deadline is parsed to \<open>None\<close>, and a string to the timestamp the parser
  gives, to \<open>NaT\<close> or, when the parser fails, to \<open>None\<close>.
\<close>

theorem countdown_cell_tiers:
  "(i < length client_data \<longrightarrow>
      cells (build_client_sheet L cols today cid name client_data)
        (3 + i, length (display_columns_of cols) + 1) =
        (case (client_data ! i) DepositDeadline of
           PTimestamp d \<Rightarrow>
             Some \<lparr>cval = PInt (d - today),
                   cfill = (if 0 < d - today \<and> d - today \<le> 30 then Some ''FF0000''
                            else if d - today \<le> 0 then Some ''808080'' else None),
                   cfont = (if 0 < d - today \<and> d - today \<le> 30
                            then Some (Font (Some ''FFFFFF'') False) else None)\<rparr>
         | _ \<Rightarrow> None))
   \<and> (is_null raw \<longrightarrow> parse_date L raw = PNone)
   \<and> parse_date L (PStr s) =
       (case to_datetime L (if 58 \<in> set s then first_token s else s) of
          Day d \<Rightarrow> PTimestamp d | NotATime \<Rightarrow> PNaT | Raised \<Rightarrow> PNone)"
  using build_client_sheet_countdown [of i client_data L cols today cid name]
    parse_date_cases [of raw L s]
  by blast

text \<open>
  An example library: plain decimal integers only, and a date parser that knows one
  date, day 130.
\<close>

definition example_lib :: pylib where
  "example_lib =
     \<lparr>int_other = (\<lambda>_. None), str_timestamp = (\<lambda>_. ascii ''2024-06-01 00:00:00''),
      to_datetime = (\<lambda>s. if s = ascii ''2024-06-01'' then Day 130
                           else if s = [] then NotATime else Raised)\<rparr>"

theorem countdown_cell_tiers_witness:
  "(0::nat) < length
      [(example_row (PInt 1) PNaN PNaN)(DepositDeadline := PTimestamp 130),
       (example_row (PInt 1) PNaN PNaN)(DepositDeadline := PTimestamp 131),
       (example_row (PInt 1) PNaN PNaN)(DepositDeadline := PTimestamp 100),
       (example_row (PInt 1) PNaN PNaN)(DepositDeadline := PNaT)]
   \<and> cells (build_client_sheet example_lib [ClientId, Name, Status, DepositDeadline] 100
        (PInt 1) (PStr (ascii ''A''))
        [(example_row (PInt 1) PNaN PNaN)(DepositDeadline := PTimestamp 130),
         (example_row (PInt 1) PNaN PNaN)(DepositDeadline := PTimestamp 131),
         (example_row (PInt 1) PNaN PNaN)(DepositDeadline := PTimestamp 100),
         (example_row (PInt 1) PNaN PNaN)(DepositDeadline := PNaT)])
       (3 + 0, length (display_columns_of [ClientId, Name, Status, DepositDeadline]) + 1)
     = Some \<lparr>cval = PInt 30, cfill = Some ''FF0000'',
             cfont = Some (Font (Some ''FFFFFF'') False)\<rparr>
   \<and> is_null PNaN \<and> parse_date example_lib PNaN = PNone
   \<and> parse_date example_lib (PStr (ascii ''2024-06-01 10:30:00'')) = PTimestamp 130
   \<and> parse_date example_lib (PStr (ascii ''soon'')) = PNone"
  using countdown_cell_tiers
    [where i = 0 and L = example_lib and cols = "[ClientId, Name, Status, DepositDeadline]"
       and today = 100 and cid = "PInt 1" and name = "PStr (ascii ''A'')"
       and raw = PNaN and s = "ascii ''2024-06-01 10:30:00''"
       and client_data =
        "[(example_row (PInt 1) PNaN PNaN)(DepositDeadline := PTimestamp 130),
          (example_row (PInt 1) PNaN PNaN)(DepositDeadline := PTimestamp 131),
          (example_row (PInt 1) PNaN PNaN)(DepositDeadline := PTimestamp 100),
          (example_row (PInt 1) PNaN PNaN)(DepositDeadline := PNaT)]"]
  by (simp add: example_lib_def parse_date_def first_token_def is_space_def ascii_def)

section \<open>The deadline rollup\<close>

text \<open>
  A row collected for the rollup (lines 463 to 470): the dictionary with the keys name,
  client id, institution, program, deposit deadline and remaining days.
\<close>

record summary_row =
  s_name :: pyval
  s_client_id :: ustr
  s_school :: pyval
  s_program :: pyval
  s_deadline :: pyval
  s_remaining :: pyval

text \<open>
  \<open>isinstance(deadline, (int, float)) and 0 <= deadline <= 30\<close>: a boolean is an
  integer, 0 or 1, and \<open>nan\<close> is a float that fails both comparisons.
\<close>

definition in_rollup :: "pyval \<Rightarrow> bool" where
  "in_rollup deadline =
     (case deadline of
        PInt n \<Rightarrow> 0 \<le> n \<and> n \<le> 30
      | PBool b \<Rightarrow> True
      | _ \<Rightarrow> False)"

text \<open>The number an integer or a boolean stands for in a comparison.\<close>

definition days_of :: "pyval \<Rightarrow> int" where
  "days_of v = (case py_num v of Some n \<Rightarrow> n | None \<Rightarrow> 0)"

text \<open>
  The rows of one sheet (lines 452 to 470): the last column of each data row is read,
  at \<open>ws.max_column\<close>. The two sheet names skipped are U+62BC U+91D1 followed by DDL and
  VIP followed by U+60C5 U+51B5.
\<close>

definition sheet_summary :: "ustr \<Rightarrow> worksheet \<Rightarrow> summary_row list" where
  "sheet_summary sheet_name ws =
     (let name = extract_name_from_hyperlink (cell_value ws 1 1) in
      concat (map (\<lambda>row.
          let deadline = cell_value ws row (max_column ws) in
          if in_rollup deadline then
            [\<lparr>s_name = name, s_client_id = sheet_name,
              s_school = cell_value ws row 1, s_program = cell_value ws row 2,
              s_deadline = deadline, s_remaining = deadline\<rparr>]
          else [])
        [3 ..< max_row ws + 1]))"

definition summary_data :: "workbook \<Rightarrow> summary_row list" where
  "summary_data offer_wb =
     sort_key (\<lambda>x. days_of (s_remaining x))
       (concat (map (\<lambda>(sheet_name, ws).
           if sheet_name \<in> {[25276, 37329] @ ascii ''DDL'', ascii ''VIP'' @ [24773, 20917]}
           then [] else sheet_summary sheet_name ws)
         offer_wb))"

text \<open>
  The rollup sheet (lines 437 to 500): the five headers in row 1, then a row for each
  collected row, the remaining days coloured by tier.
\<close>

definition write_summary_row :: "pylib \<Rightarrow> worksheet \<Rightarrow> nat \<Rightarrow> summary_row \<Rightarrow> worksheet" where
  "write_summary_row L ws row_idx x =
     (let crm_link = ascii ''http://crmuk.ukec.com/admin/school-apply/detail?id=''
                       @ s_client_id x;
          ws1 = set_font
                  (set_value ws row_idx 1
                     (PStr (link_formula (ascii '', '') crm_link (py_str L (s_name x)))))
                  row_idx 1 (Font (Some ''0000FF'') False);
          ws2 = ws_cell ws1 row_idx 2 (s_school x);
          ws3 = ws_cell ws2 row_idx 3 (s_program x);
          ws4 = ws_cell ws3 row_idx 4 (s_deadline x);
          ws5 = ws_cell ws4 row_idx 5 (s_remaining x);
          days = days_of (s_remaining x)
      in if days \<le> 7 then
           set_font (set_fill ws5 row_idx 5 ''FF0000'') row_idx 5 (Font (Some ''FFFFFF'') False)
         else if days \<le> 14 then set_fill ws5 row_idx 5 ''FFFF00''
         else if days \<le> 30 then
           set_font (set_fill ws5 row_idx 5 ''008000'') row_idx 5 (Font (Some ''FFFFFF'') False)
         else ws5)"

fun fill_summary :: "pylib \<Rightarrow> worksheet \<Rightarrow> nat \<Rightarrow> summary_row list \<Rightarrow> worksheet" where
  "fill_summary L ws row_idx [] = ws"
| "fill_summary L ws row_idx (x # xs) =
     fill_summary L (write_summary_row L ws row_idx x) (row_idx + 1) xs"

definition summary_headers :: "ustr list" where
  "summary_headers =
     [[22995, 21517], [30003, 35831, 38498, 26657, 33521, 25991],
      [30003, 35831, 19987, 19994, 33521, 25991],
      [25276, 37329, 25130, 27490, 26085, 26399], [21097, 20313, 22825, 25968]]"

definition build_summary_sheet :: "pylib \<Rightarrow> workbook \<Rightarrow> worksheet" where
  "build_summary_sheet L offer_wb =
     fill_summary L (write_headers new_sheet 1 1 summary_headers) 2 (summary_data offer_wb)"

lemma cell_value_cong:
  "cells ws (r, c) = cells ws' (r, c) \<Longrightarrow> cell_value ws r c = cell_value ws' r c"
  by (simp add: cell_value_def get_cell_def)

lemma cell_value_ws_cell:
  "cell_value (ws_cell ws r c v) r c = (if v = PNone then cell_value ws r c else v)"
  by (simp add: cell_value_def ws_cell_def get_cell_def cells_put_cell)

lemma cell_value_set_fill: "cell_value (set_fill ws r c x) r' c' = cell_value ws r' c'"
  by (simp add: cell_value_def set_fill_def get_cell_def cells_put_cell)

lemma cell_value_set_font: "cell_value (set_font ws r c f) r' c' = cell_value ws r' c'"
  by (simp add: cell_value_def set_font_def get_cell_def cells_put_cell)

lemma cell_value_ws_cell_other:
  "(r', c') \<noteq> (r, c) \<Longrightarrow> cell_value (ws_cell ws r c v) r' c' = cell_value ws r' c'"
  by (auto simp: cell_value_def ws_cell_def get_cell_def cells_put_cell)

lemma cell_value_set_value:
  "cell_value (set_value ws r c v) r' c' = (if (r', c') = (r, c) then v else cell_value ws r' c')"
  by (simp add: cell_value_def set_value_def get_cell_def cells_put_cell)

lemma write_summary_row_other:
  "fst k \<noteq> r \<Longrightarrow> cells (write_summary_row L ws r x) k = cells ws k"
proof -
  assume "fst k \<noteq> r"
  then have "k \<noteq> (r, c)" for c by auto
  then show ?thesis
    by (simp add: write_summary_row_def Let_def cells_other)
qed

lemma write_summary_row_values:
  "s_deadline x \<noteq> PNone \<Longrightarrow> cell_value (write_summary_row L ws r x) r 4 = s_deadline x"
  "s_remaining x \<noteq> PNone \<Longrightarrow> cell_value (write_summary_row L ws r x) r 5 = s_remaining x"
  by (simp_all add: write_summary_row_def Let_def cell_value_set_fill cell_value_set_font
      cell_value_ws_cell cell_value_ws_cell_other)

lemma fill_summary_other:
  "fst k < r \<Longrightarrow> cells (fill_summary L ws r xs) k = cells ws k"
proof (induction xs arbitrary: ws r)
  case Nil
  then show ?case by simp
next
  case (Cons x xs)
  have "cells (fill_summary L (write_summary_row L ws r x) (r + 1) xs) k
      = cells (write_summary_row L ws r x) k"
    using Cons.prems by (intro Cons.IH) simp
  then show ?case
    using Cons.prems by (simp add: write_summary_row_other)
qed

lemma fill_summary_values:
  "i < length xs \<Longrightarrow>
     (s_deadline (xs ! i) \<noteq> PNone \<longrightarrow>
        cell_value (fill_summary L ws r xs) (r + i) 4 = s_deadline (xs ! i))
     \<and> (s_remaining (xs ! i) \<noteq> PNone \<longrightarrow>
        cell_value (fill_summary L ws r xs) (r + i) 5 = s_remaining (xs ! i))"
proof (induction xs arbitrary: ws r i)
  case Nil
  then show ?case by simp
next
  case (Cons x xs)
  show ?case
  proof (cases i)
    case 0
    have "cell_value (fill_summary L (write_summary_row L ws r x) (r + 1) xs) r c
        = cell_value (write_summary_row L ws r x) r c" for c
      by (intro cell_value_cong fill_summary_other) simp
    then show ?thesis
      using 0 by (simp add: write_summary_row_values)
  next
    case (Suc j)
    then have "j < length xs" using Cons.prems by simp
    from Cons.IH [OF this, of "write_summary_row L ws r x" "r + 1"]
    show ?thesis using Suc by simp
  qed
qed

lemma sheet_summary_members:
  "x \<in> set (sheet_summary sheet_name ws) \<Longrightarrow>
     s_deadline x = s_remaining x \<and> in_rollup (s_remaining x)
     \<and> (\<exists>row. 3 \<le> row \<and> row \<le> max_row ws
            \<and> s_remaining x = cell_value ws row (max_column ws))"
  by (auto simp: sheet_summary_def Let_def split: if_splits)

lemma summary_data_members:
  "x \<in> set (summary_data offer_wb) \<Longrightarrow>
     s_deadline x = s_remaining x \<and> in_rollup (s_remaining x)
     \<and> (\<exists>sheet_name ws row. (sheet_name, ws) \<in> set offer_wb \<and> 3 \<le> row \<and> row \<le> max_row ws
            \<and> s_remaining x = cell_value ws row (max_column ws))"
proof -
  assume "x \<in> set (summary_data offer_wb)"
  then obtain sheet_name ws where
    "(sheet_name, ws) \<in> set offer_wb" "x \<in> set (sheet_summary sheet_name ws)"
    by (auto simp: summary_data_def split: if_splits)
  then show ?thesis
    using sheet_summary_members [of x sheet_name ws] by blast
qed

lemma in_rollup_not_None: "in_rollup v \<Longrightarrow> v \<noteq> PNone"
  by (auto simp: in_rollup_def)

text \<open>
  C10. In the row of the rollup sheet written for the collected row \<open>i\<close> (sheet row
  \<open>2 + i\<close>), the deposit-deadline column (4) and the remaining-days column (5) hold the
  same value: the number read from the last column of a data row of a per-client sheet,
  which the filter keeps only when it is an integer from 0 to 30.
\<close>

theorem summary_deadline_is_remaining:
  "i < length (summary_data offer_wb) \<longrightarrow>
     cell_value (build_summary_sheet L offer_wb) (2 + i) 4
       = cell_value (build_summary_sheet L offer_wb) (2 + i) 5
     \<and> cell_value (build_summary_sheet L offer_wb) (2 + i) 5
       = s_remaining (summary_data offer_wb ! i)
     \<and> s_deadline (summary_data offer_wb ! i) = s_remaining (summary_data offer_wb ! i)
     \<and> in_rollup (s_remaining (summary_data offer_wb ! i))
     \<and> (\<exists>sheet_name ws row. (sheet_name, ws) \<in> set offer_wb \<and> 3 \<le> row \<and> row \<le> max_row ws
            \<and> s_remaining (summary_data offer_wb ! i) = cell_value ws row (max_column ws))"
proof
  assume i: "i < length (summary_data offer_wb)"
  let ?x = "summary_data offer_wb ! i"
  have m: "s_deadline ?x = s_remaining ?x \<and> in_rollup (s_remaining ?x)
     \<and> (\<exists>sheet_name ws row. (sheet_name, ws) \<in> set offer_wb \<and> 3 \<le> row \<and> row \<le> max_row ws
            \<and> s_remaining ?x = cell_value ws row (max_column ws))"
    using i by (intro summary_data_members) simp
  then have n: "s_deadline ?x \<noteq> PNone" "s_remaining ?x \<noteq> PNone"
    using in_rollup_not_None by auto
  have "cell_value (build_summary_sheet L offer_wb) (2 + i) 4 = s_deadline ?x"
    and "cell_value (build_summary_sheet L offer_wb) (2 + i) 5 = s_remaining ?x"
    using fill_summary_values
      [OF i, where L = L and r = 2 and ws = "write_headers new_sheet 1 1 summary_headers"] n
    unfolding build_summary_sheet_def by blast+
  then show "cell_value (build_summary_sheet L offer_wb) (2 + i) 4
       = cell_value (build_summary_sheet L offer_wb) (2 + i) 5
     \<and> cell_value (build_summary_sheet L offer_wb) (2 + i) 5 = s_remaining ?x
     \<and> s_deadline ?x = s_remaining ?x
     \<and> in_rollup (s_remaining ?x)
     \<and> (\<exists>sheet_name ws row. (sheet_name, ws) \<in> set offer_wb \<and> 3 \<le> row \<and> row \<le> max_row ws
            \<and> s_remaining ?x = cell_value ws row (max_column ws))"
    using m by simp
qed

text \<open>
  The example of the specification: one record of client 1001 (name U+5F20 U+4E09),
  University of Oxford, MSc CS, status obtained CAS/COE, with a deposit deadline twelve
  days after today (today is day 100).
\<close>

definition example_df :: "df_row list" where
  "example_df =
     [(example_row (PInt 1001) (PStr [24352, 19977]) (PStr ([33719, 24471] @ ascii ''CAS/COE'')))
        (Institution := PStr (ascii ''University of Oxford''),
         Program := PStr (ascii ''MSc CS''),
         DepositDeadline := PTimestamp 112)]"

lemma ws_proj:
  "cells (put_cell ws r c x) k = (if k = (r, c) then Some x else cells ws k)"
  "max_row (put_cell ws r c x) = max (max_row ws) r"
  "max_column (put_cell ws r c x) = max (max_column ws) c"
  "cells (ws_cell ws r c v) k =
     (if k = (r, c)
      then Some (if v = PNone then get_cell ws r c else (get_cell ws r c)\<lparr>cval := v\<rparr>)
      else cells ws k)"
  "max_row (ws_cell ws r c v) = max (max_row ws) r"
  "max_column (ws_cell ws r c v) = max (max_column ws) c"
  "cells (set_value ws r c v) k =
     (if k = (r, c) then Some ((get_cell ws r c)\<lparr>cval := v\<rparr>) else cells ws k)"
  "max_row (set_value ws r c v) = max (max_row ws) r"
  "max_column (set_value ws r c v) = max (max_column ws) c"
  "cells (set_fill ws r c y) k =
     (if k = (r, c) then Some ((get_cell ws r c)\<lparr>cfill := Some y\<rparr>) else cells ws k)"
  "max_row (set_fill ws r c y) = max (max_row ws) r"
  "max_column (set_fill ws r c y) = max (max_column ws) c"
  "cells (set_font ws r c f) k =
     (if k = (r, c) then Some ((get_cell ws r c)\<lparr>cfont := Some f\<rparr>) else cells ws k)"
  "max_row (set_font ws r c f) = max (max_row ws) r"
  "max_column (set_font ws r c f) = max (max_column ws) c"
  by (simp_all add: put_cell_def ws_cell_def set_value_def set_fill_def set_font_def)

lemmas build_defs =
  build_offer_wb_def add_client_sheet_def build_client_sheet_def client_groups_def
  sort_values_def pd_unique_def same_key_def py_eq_def pd_eq_def result_priority_def ascii_def
  client_name_def clean_sheet_name_def clean_str_def replace_char_def sheetnames_def
  remove_sheet_def display_columns_of_def existing_columns_of_def columns_to_keep_def
  write_field_def write_countdown_def status_style_def ws_proj
  get_cell_def new_sheet_def blank_def link_formula_def str_int_def digits.simps
  startswith_def Let_def cell_value_def example_row_def example_lib_def
  example_df_def

lemmas summary_defs =
  summary_data_def sheet_summary_def in_rollup_def extract_name_from_hyperlink_def days_of_def

lemma example_rollup_all_columns:
  "map s_remaining
     (summary_data (build_offer_wb example_lib (existing_columns_of UNIV) 100 example_df))
     = [PInt 12]"
  by (simp add: build_defs summary_defs)

lemma example_rollup_missing_column:
  "summary_data (build_offer_wb example_lib (existing_columns_of (UNIV - {DepositCondition}))
      100 example_df) = []"
  by (simp add: build_defs summary_defs)

lemma example_sheet_missing_column:
  "map (\<lambda>s. (fst s, max_column (snd s), cell_value (snd s) 3 13, cell_value (snd s) 3 14))
       (build_offer_wb example_lib (existing_columns_of (UNIV - {DepositCondition})) 100 example_df)
     = [(ascii ''1001'', 14, PInt 12, PNone)]"
  by (simp add: build_defs)

theorem summary_deadline_is_remaining_witness:
  "(0::nat) < length (summary_data (build_offer_wb example_lib (existing_columns_of UNIV) 100 example_df))
   \<and> cell_value (build_summary_sheet example_lib
         (build_offer_wb example_lib (existing_columns_of UNIV) 100 example_df)) (2 + 0) 5 = PInt 12
   \<and> cell_value (build_summary_sheet example_lib
         (build_offer_wb example_lib (existing_columns_of UNIV) 100 example_df)) (2 + 0) 4 = PInt 12"
proof -
  have l: "length (summary_data (build_offer_wb example_lib (existing_columns_of UNIV) 100 example_df)) = 1"
    using example_rollup_all_columns
    by (metis length_map list.size(3) list.size(4) One_nat_def add.left_neutral)
  have r: "s_remaining (summary_data (build_offer_wb example_lib (existing_columns_of UNIV) 100 example_df) ! 0) = PInt 12"
    using example_rollup_all_columns l
    by (metis nth_map nth_Cons_0 zero_less_one)
  show ?thesis
    using summary_deadline_is_remaining
      [where i = 0 and L = example_lib
         and offer_wb = "build_offer_wb example_lib (existing_columns_of UNIV) 100 example_df"]
      l r
    by simp
qed

text \<open>
  C8. The rollup reads the cell of each data row in column \<open>ws.max_column\<close>. The
  mailbox link in column 14 of row 1 makes that column 14 on every client sheet, while
  the countdown is written in the column after the display columns, which is column 14
  only when the CSV file has all thirteen of them. On the example dataset with the
  column \<open>DepositCondition\<close> absent from the file, the countdown cell (row 3, column 13)
  holds 12, a number between 0 and 30, and the rollup has no row; with every column
  present the same record gives the rollup its one row.
\<close>

theorem summary_data_misses_countdown:
  "summary_data (build_offer_wb example_lib (existing_columns_of (UNIV - {DepositCondition}))
      100 example_df) = []
   \<and> map (\<lambda>s. (fst s, max_column (snd s), cell_value (snd s) 3 13, cell_value (snd s) 3 14))
       (build_offer_wb example_lib (existing_columns_of (UNIV - {DepositCondition})) 100 example_df)
     = [(ascii ''1001'', 14, PInt 12, PNone)]
   \<and> map s_remaining
       (summary_data (build_offer_wb example_lib (existing_columns_of UNIV) 100 example_df))
     = [PInt 12]"
  using example_rollup_missing_column example_sheet_missing_column example_rollup_all_columns
  by simp

section \<open>The cross-reference linker\<close>































section \<open>The validation-list synthesizer\<close>

text \<open>
  The dictionary \<open>student_options\<close> (lines 534 to 547), in the order of its insertions,
  which is by row: an entry for each row of the source sheet whose identifier cell and
  extracted identifier are both truthy. A Python set is kept as a list without
  repetitions; the order in which \<open>list(...)\<close> enumerates a set is not specified by
  the language, and nothing below depends on it. Without an identifier column the first
  cell access raises and the run is aborted, which is the result \<open>None\<close>.
\<close>

record option_entry =
  o_id :: pyval
  o_schools :: "ustr list"
  o_programs :: "ustr list"

definition init_student_options ::
  "pylib \<Rightarrow> worksheet \<Rightarrow> nat option \<Rightarrow> (nat \<times> option_entry) list option" where
  "init_student_options L kalen_ws id_col =
     (case id_col of
        None \<Rightarrow> if 2 \<le> max_row kalen_ws then None else Some []
      | Some c \<Rightarrow>
          Some (concat (map (\<lambda>row.
              if truthy (cell_value kalen_ws row c) then
                (let student_id = extract_id_from_hyperlink (int_other L) (cell_value kalen_ws row c)
                 in if truthy student_id
                    then [(row, \<lparr>o_id = student_id, o_schools = [], o_programs = []\<rparr>)]
                    else [])
              else [])
            [2 ..< max_row kalen_ws + 1])))"

text \<open>
  The inner loop (lines 569 to 573): the pair is added to the first entry whose
  identifier equals the number of the sheet, and the loop stops there.
\<close>

fun add_option ::
  "int \<Rightarrow> ustr \<Rightarrow> ustr \<Rightarrow> (nat \<times> option_entry) list \<Rightarrow> (nat \<times> option_entry) list" where
  "add_option student_id school program [] = []"
| "add_option student_id school program ((kalen_row, options) # rest) =
     (if py_eq (o_id options) (PInt student_id) then
        (kalen_row, options\<lparr>o_schools := List.insert school (o_schools options),
                             o_programs := List.insert program (o_programs options)\<rparr>) # rest
      else (kalen_row, options) # add_option student_id school program rest)"

text \<open>
  The data rows of one sheet (lines 559 to 573), and the sheets of the generated
  workbook (lines 550 to 576): the two summary names are skipped, and so is a sheet whose
  name is not an integer for \<open>int\<close>.
\<close>

definition scan_sheet ::
  "pylib \<Rightarrow> worksheet \<Rightarrow> int \<Rightarrow> (nat \<times> option_entry) list \<Rightarrow> (nat \<times> option_entry) list" where
  "scan_sheet L ws student_id entries =
     fold (\<lambda>row es.
             if truthy (cell_value ws row 1) \<and> truthy (cell_value ws row 2) then
               add_option student_id
                 (clean_str (strip (py_str L (cell_value ws row 1))))
                 (clean_str (strip (py_str L (cell_value ws row 2)))) es
             else es)
       [3 ..< max_row ws + 1] entries"

definition collect_options ::
  "pylib \<Rightarrow> workbook \<Rightarrow> (nat \<times> option_entry) list \<Rightarrow> (nat \<times> option_entry) list" where
  "collect_options L offer_wb entries =
     fold (\<lambda>(sheet_name, ws) es.
             if sheet_name \<in> {[25276, 37329] @ ascii ''DDL'', ascii ''VIP'' @ [24773, 20917]}
             then es
             else (case py_int (int_other L) sheet_name of
                     None \<Rightarrow> es
                   | Some student_id \<Rightarrow> scan_sheet L ws student_id es))
       offer_wb entries"

text \<open>
  The hidden options sheet and the list constraints (lines 579 to 645). A constraint
  is kept by the cell it is attached to and by the range of the options sheet it refers
  to (column 1 is A, column 2 is B). The labels are \<open>ID_\<close>, the text of the identifier,
  and an underscore followed by U+5B66 U+6821 (school) or U+4E13 U+4E1A (program).
\<close>

record validation =
  dv_column :: nat
  dv_row :: nat
  dv_list_column :: nat
  dv_first :: nat
  dv_last :: nat

record options_state =
  current_row :: nat
  options_ws :: worksheet
  validations :: "validation list"

definition write_option_rows ::
  "worksheet \<Rightarrow> nat \<Rightarrow> ustr list \<Rightarrow> ustr list \<Rightarrow> nat \<Rightarrow> worksheet" where
  "write_option_rows ws top_row schools_list programs_list max_count =
     fold (\<lambda>i ws.
             let ws1 = (if i < length schools_list
                        then ws_cell ws (top_row + i) 1 (PStr (schools_list ! i)) else ws)
             in if i < length programs_list
                then ws_cell ws1 (top_row + i) 2 (PStr (programs_list ! i)) else ws1)
       [0 ..< max_count] ws"

definition write_block ::
  "pylib \<Rightarrow> nat \<Rightarrow> nat \<Rightarrow> nat \<times> option_entry \<Rightarrow> options_state \<Rightarrow> options_state" where
  "write_block L enrollment_school_col enrollment_program_col entry st =
     (let row = fst entry; options = snd entry in
      if o_schools options = [] \<and> o_programs options = [] then st
      else
        (let options_start_row = current_row st;
             max_count = max (max (length (o_schools options)) (length (o_programs options))) 1;
             ws1 = ws_cell (options_ws st) options_start_row 1
                     (PStr (ascii ''ID_'' @ py_str L (o_id options) @ [95, 23398, 26657]));
             ws2 = ws_cell ws1 options_start_row 2
                     (PStr (ascii ''ID_'' @ py_str L (o_id options) @ [95, 19987, 19994]));
             ws3 = write_option_rows ws2 (options_start_row + 1)
                     (o_schools options) (o_programs options) max_count;
             school_dv =
               (if length (o_schools options) > 0 then
                  [\<lparr>dv_column = enrollment_school_col, dv_row = row, dv_list_column = 1,
                    dv_first = options_start_row + 1,
                    dv_last = options_start_row + length (o_schools options)\<rparr>]
                else []);
             program_dv =
               (if length (o_programs options) > 0 then
                  [\<lparr>dv_column = enrollment_program_col, dv_row = row, dv_list_column = 2,
                    dv_first = options_start_row + 1,
                    dv_last = options_start_row + length (o_programs options)\<rparr>]
                else [])
         in \<lparr>current_row = options_start_row + 1 + max_count + 1,
             options_ws = ws3,
             validations = validations st @ school_dv @ program_dv\<rparr>))"

text \<open>
  The synthesizer as a whole: the two new columns are the two after the last column
  of the source sheet.
\<close>

definition synthesize_options ::
  "pylib \<Rightarrow> worksheet \<Rightarrow> nat option \<Rightarrow> nat \<Rightarrow> workbook \<Rightarrow> options_state option" where
  "synthesize_options L kalen_ws id_col last_col offer_wb =
     (case init_student_options L kalen_ws id_col of
        None \<Rightarrow> None
      | Some student_options \<Rightarrow>
          Some (fold (write_block L (last_col + 1) (last_col + 2))
                  (collect_options L offer_wb student_options)
                  \<lparr>current_row = 1, options_ws = new_sheet, validations = []\<rparr>))"

text \<open>
  The pairs a sheet offers, and the pairs of the whole workbook with the number each
  sheet name stands for: what the two outer loops enumerate.
\<close>

definition sheet_items :: "pylib \<Rightarrow> worksheet \<Rightarrow> (ustr \<times> ustr) list" where
  "sheet_items L ws =
     concat (map (\<lambda>row.
         if truthy (cell_value ws row 1) \<and> truthy (cell_value ws row 2) then
           [(clean_str (strip (py_str L (cell_value ws row 1))),
             clean_str (strip (py_str L (cell_value ws row 2))))]
         else [])
       [3 ..< max_row ws + 1])"

definition option_items :: "pylib \<Rightarrow> workbook \<Rightarrow> (int \<times> ustr \<times> ustr) list" where
  "option_items L offer_wb =
     concat (map (\<lambda>(sheet_name, ws).
         if sheet_name \<in> {[25276, 37329] @ ascii ''DDL'', ascii ''VIP'' @ [24773, 20917]}
         then []
         else (case py_int (int_other L) sheet_name of
                 None \<Rightarrow> []
               | Some student_id \<Rightarrow> map (\<lambda>sp. (student_id, fst sp, snd sp)) (sheet_items L ws)))
       offer_wb)"

text \<open>The row of the first entry whose identifier equals a number.\<close>

definition first_row_with :: "(nat \<times> option_entry) list \<Rightarrow> int \<Rightarrow> nat option" where
  "first_row_with entries student_id =
     map_option fst (List.find (\<lambda>entry. py_eq (o_id (snd entry)) (PInt student_id)) entries)"

lemma fold_concat_map:
  "fold f (concat (map g xs)) a = fold (\<lambda>x. fold f (g x)) xs a"
  by (induction xs arbitrary: a) auto

lemma scan_sheet_items:
  "scan_sheet L ws n es = fold (\<lambda>sp. add_option n (fst sp) (snd sp)) (sheet_items L ws) es"
proof -
  have "fold (\<lambda>row es.
             if truthy (cell_value ws row 1) \<and> truthy (cell_value ws row 2) then
               add_option n
                 (clean_str (strip (py_str L (cell_value ws row 1))))
                 (clean_str (strip (py_str L (cell_value ws row 2)))) es
             else es) xs es
      = fold (\<lambda>sp. add_option n (fst sp) (snd sp))
          (concat (map (\<lambda>row.
             if truthy (cell_value ws row 1) \<and> truthy (cell_value ws row 2) then
               [(clean_str (strip (py_str L (cell_value ws row 1))),
                 clean_str (strip (py_str L (cell_value ws row 2))))]
             else []) xs)) es" for xs
    by (induction xs arbitrary: es) auto
  then show ?thesis by (simp add: scan_sheet_def sheet_items_def)
qed

lemma collect_options_items:
  "collect_options L offer_wb es
     = fold (\<lambda>item. add_option (fst item) (fst (snd item)) (snd (snd item)))
         (option_items L offer_wb) es"
proof (induction offer_wb arbitrary: es)
  case Nil
  then show ?case by (simp add: collect_options_def option_items_def)
next
  case (Cons sh offer_wb)
  obtain name ws where sh: "sh = (name, ws)" by (cases sh)
  have step: "collect_options L (sh # offer_wb) es = collect_options L offer_wb
      (if name \<in> {[25276, 37329] @ ascii ''DDL'', ascii ''VIP'' @ [24773, 20917]} then es
       else (case py_int (int_other L) name of None \<Rightarrow> es
             | Some student_id \<Rightarrow> scan_sheet L ws student_id es))"
    by (simp add: collect_options_def sh)
  have items: "option_items L (sh # offer_wb) =
      (if name \<in> {[25276, 37329] @ ascii ''DDL'', ascii ''VIP'' @ [24773, 20917]} then []
       else (case py_int (int_other L) name of None \<Rightarrow> []
             | Some student_id \<Rightarrow> map (\<lambda>sp. (student_id, fst sp, snd sp)) (sheet_items L ws)))
      @ option_items L offer_wb"
    by (simp add: option_items_def sh)
  show ?case
    unfolding step items
    by (simp add: Cons.IH scan_sheet_items fold_map comp_def split: option.splits)
qed

lemma add_option_rows: "map fst (add_option n s p es) = map fst es"
  by (induction es) auto

lemma first_row_with_in: "first_row_with es n = Some r \<Longrightarrow> r \<in> fst ` set es"
  by (auto simp: first_row_with_def find_Some_iff image_iff) (metis fst_conv nth_mem)

lemma first_row_with_Cons:
  "first_row_with ((r, e) # es) n =
     (if py_eq (o_id e) (PInt n) then Some r else first_row_with es n)"
  by (simp add: first_row_with_def)

lemma first_row_with_add_option:
  "first_row_with (add_option n s p es) m = first_row_with es m"
  by (induction es) (auto simp: first_row_with_Cons)

lemma map_of_add_option:
  "distinct (map fst es) \<Longrightarrow>
     map_of (add_option n s p es) row =
       (case map_of es row of
          None \<Rightarrow> None
        | Some e \<Rightarrow>
            Some (if first_row_with es n = Some row
                  then e\<lparr>o_schools := List.insert s (o_schools e),
                         o_programs := List.insert p (o_programs e)\<rparr>
                  else e))"
proof (induction es)
  case Nil
  then show ?case by simp
next
  case (Cons a es)
  obtain r0 e0 where a: "a = (r0, e0)" by (cases a)
  have d: "distinct (map fst es)" and n: "r0 \<notin> fst ` set es"
    using Cons.prems a by auto
  show ?case
  proof (cases "py_eq (o_id e0) (PInt n)")
    case True
    show ?thesis
    proof (cases "row = r0")
      case True
      then show ?thesis using \<open>py_eq (o_id e0) (PInt n)\<close> a by (simp add: first_row_with_Cons)
    next
      case False
      then show ?thesis
        using \<open>py_eq (o_id e0) (PInt n)\<close> a
        by (auto simp: first_row_with_Cons split: option.splits)
    qed
  next
    case False
    have "first_row_with es n \<noteq> Some r0"
      using n first_row_with_in by blast
    then show ?thesis
      using False a Cons.IH [OF d]
      by (auto simp: first_row_with_Cons split: option.splits)
  qed
qed

lemma fold_add_option:
  "distinct (map fst es) \<Longrightarrow> map_of es row = Some e \<Longrightarrow>
     \<exists>e'. map_of (fold (\<lambda>item. add_option (fst item) (fst (snd item)) (snd (snd item))) items es) row
            = Some e'
        \<and> o_id e' = o_id e
        \<and> set (o_schools e') = set (o_schools e)
             \<union> {s. \<exists>n p. (n, s, p) \<in> set items \<and> first_row_with es n = Some row}
        \<and> set (o_programs e') = set (o_programs e)
             \<union> {p. \<exists>n s. (n, s, p) \<in> set items \<and> first_row_with es n = Some row}
        \<and> (distinct (o_schools e) \<longrightarrow> distinct (o_schools e'))
        \<and> (distinct (o_programs e) \<longrightarrow> distinct (o_programs e'))"
proof (induction items arbitrary: es e)
  case Nil
  then show ?case by simp
next
  case (Cons item items)
  obtain n s p where item: "item = (n, s, p)" by (cases item)
  let ?es1 = "add_option n s p es"
  let ?e1 = "if first_row_with es n = Some row
             then e\<lparr>o_schools := List.insert s (o_schools e),
                    o_programs := List.insert p (o_programs e)\<rparr>
             else e"
  have d1: "distinct (map fst ?es1)"
    using Cons.prems(1) by (simp add: add_option_rows)
  have m1: "map_of ?es1 row = Some ?e1"
    using Cons.prems by (simp add: map_of_add_option)
  have f1: "first_row_with ?es1 m = first_row_with es m" for m
    by (rule first_row_with_add_option)
  obtain e' where e': "map_of (fold (\<lambda>item. add_option (fst item) (fst (snd item)) (snd (snd item)))
        items ?es1) row = Some e'"
    "o_id e' = o_id ?e1"
    "set (o_schools e') = set (o_schools ?e1)
       \<union> {s. \<exists>n p. (n, s, p) \<in> set items \<and> first_row_with ?es1 n = Some row}"
    "set (o_programs e') = set (o_programs ?e1)
       \<union> {p. \<exists>n s. (n, s, p) \<in> set items \<and> first_row_with ?es1 n = Some row}"
    "distinct (o_schools ?e1) \<longrightarrow> distinct (o_schools e')"
    "distinct (o_programs ?e1) \<longrightarrow> distinct (o_programs e')"
    using Cons.IH [OF d1 m1] by blast
  have "map_of (fold (\<lambda>item. add_option (fst item) (fst (snd item)) (snd (snd item)))
        (item # items) es) row = Some e'"
    using e'(1) item by simp
  moreover have "o_id e' = o_id e"
    using e'(2) by (simp split: if_splits)
  moreover have "set (o_schools e') = set (o_schools e)
       \<union> {s. \<exists>n p. (n, s, p) \<in> set (item # items) \<and> first_row_with es n = Some row}"
    using e'(3) item by (auto simp: f1 split: if_splits)
  moreover have "set (o_programs e') = set (o_programs e)
       \<union> {p. \<exists>n s. (n, s, p) \<in> set (item # items) \<and> first_row_with es n = Some row}"
    using e'(4) item by (auto simp: f1 split: if_splits)
  moreover have "distinct (o_schools e) \<longrightarrow> distinct (o_schools e')"
    using e'(5) by (simp split: if_splits)
  moreover have "distinct (o_programs e) \<longrightarrow> distinct (o_programs e')"
    using e'(6) by (simp split: if_splits)
  ultimately show ?case by blast
qed


lemma init_student_options_rows:
  "init_student_options L ws (Some c) = Some es \<Longrightarrow>
     map fst es =
       filter (\<lambda>row. truthy (cell_value ws row c)
                \<and> truthy (extract_id_from_hyperlink (int_other L) (cell_value ws row c)))
         [2 ..< max_row ws + 1]"
proof -
  have "map fst (concat (map (\<lambda>row.
              if truthy (cell_value ws row c) then
                (let student_id = extract_id_from_hyperlink (int_other L) (cell_value ws row c)
                 in if truthy student_id
                    then [(row, \<lparr>o_id = student_id, o_schools = [], o_programs = []\<rparr>)]
                    else [])
              else []) xs))
      = filter (\<lambda>row. truthy (cell_value ws row c)
                \<and> truthy (extract_id_from_hyperlink (int_other L) (cell_value ws row c))) xs"
    for xs
    by (induction xs) (simp_all add: Let_def)
  then show "init_student_options L ws (Some c) = Some es \<Longrightarrow> ?thesis"
    by (auto simp: init_student_options_def)
qed

lemma init_student_options_entries:
  "init_student_options L ws (Some c) = Some es \<Longrightarrow> (row, e) \<in> set es \<Longrightarrow>
     e = \<lparr>o_id = extract_id_from_hyperlink (int_other L) (cell_value ws row c),
           o_schools = [], o_programs = []\<rparr>
     \<and> truthy (extract_id_from_hyperlink (int_other L) (cell_value ws row c))
     \<and> 2 \<le> row \<and> row \<le> max_row ws"
  by (auto simp: init_student_options_def Let_def split: if_splits)

lemma collect_options_rows: "map fst (collect_options L offer_wb es) = map fst es"
proof -
  have "map fst (fold (\<lambda>item. add_option (fst item) (fst (snd item)) (snd (snd item))) items es)
      = map fst es" for items
    by (induction items arbitrary: es) (simp_all add: add_option_rows)
  then show ?thesis by (simp add: collect_options_items)
qed

lemma write_block_empty:
  "o_schools (snd entry) = [] \<and> o_programs (snd entry) = [] \<Longrightarrow>
     write_block L sc pc entry st = st"
  by (simp add: write_block_def Let_def)

lemma write_block_validations:
  "v \<in> set (validations (write_block L sc pc entry st)) \<Longrightarrow>
     v \<in> set (validations st)
     \<or> (dv_row v = fst entry \<and> \<not> (o_schools (snd entry) = [] \<and> o_programs (snd entry) = []))"
  by (auto simp: write_block_def Let_def split: if_splits)

lemma write_blocks_validations:
  "v \<in> set (validations (fold (write_block L sc pc) es st)) \<Longrightarrow>
     v \<in> set (validations st)
     \<or> (\<exists>entry\<in>set es. dv_row v = fst entry
            \<and> \<not> (o_schools (snd entry) = [] \<and> o_programs (snd entry) = []))"
proof (induction es arbitrary: st)
  case Nil
  then show ?case by simp
next
  case (Cons entry es)
  from Cons.IH [of "write_block L sc pc entry st"] Cons.prems
  have "v \<in> set (validations (write_block L sc pc entry st))
     \<or> (\<exists>entry\<in>set es. dv_row v = fst entry
            \<and> \<not> (o_schools (snd entry) = [] \<and> o_programs (snd entry) = []))"
    by simp
  then show ?case
    using write_block_validations [of v L sc pc entry st] by auto
qed

lemma option_sets_main:
  assumes init: "init_student_options L kalen_ws (Some c) = Some student_options"
    and mem: "(row, options) \<in> set (collect_options L offer_wb student_options)"
  shows "2 \<le> row \<and> row \<le> max_row kalen_ws
     \<and> o_id options = extract_id_from_hyperlink (int_other L) (cell_value kalen_ws row c)
     \<and> truthy (o_id options)
     \<and> set (o_schools options) =
           {s. \<exists>n p. (n, s, p) \<in> set (option_items L offer_wb)
                  \<and> first_row_with student_options n = Some row}
     \<and> set (o_programs options) =
           {p. \<exists>n s. (n, s, p) \<in> set (option_items L offer_wb)
                  \<and> first_row_with student_options n = Some row}
     \<and> distinct (o_schools options) \<and> distinct (o_programs options)"
proof -
  have d: "distinct (map fst student_options)"
    using init_student_options_rows [OF init] by simp
  have "row \<in> fst ` set (collect_options L offer_wb student_options)"
    using mem by force
  then have "row \<in> fst ` set student_options"
    using collect_options_rows [of L offer_wb student_options] by (metis set_map)
  then obtain e where e: "(row, e) \<in> set student_options" by auto
  then have m: "map_of student_options row = Some e"
    using d by simp
  have ie: "e = \<lparr>o_id = extract_id_from_hyperlink (int_other L) (cell_value kalen_ws row c),
           o_schools = [], o_programs = []\<rparr>
     \<and> truthy (extract_id_from_hyperlink (int_other L) (cell_value kalen_ws row c))
     \<and> 2 \<le> row \<and> row \<le> max_row kalen_ws"
    using init_student_options_entries [OF init e] .
  obtain e' where e': "map_of (collect_options L offer_wb student_options) row = Some e'"
    "o_id e' = o_id e"
    "set (o_schools e') = set (o_schools e)
       \<union> {s. \<exists>n p. (n, s, p) \<in> set (option_items L offer_wb)
                \<and> first_row_with student_options n = Some row}"
    "set (o_programs e') = set (o_programs e)
       \<union> {p. \<exists>n s. (n, s, p) \<in> set (option_items L offer_wb)
                \<and> first_row_with student_options n = Some row}"
    "distinct (o_schools e) \<longrightarrow> distinct (o_schools e')"
    "distinct (o_programs e) \<longrightarrow> distinct (o_programs e')"
    using fold_add_option [OF d m, of "option_items L offer_wb"]
    unfolding collect_options_items by blast
  have "distinct (map fst (collect_options L offer_wb student_options))"
    using d by (simp add: collect_options_rows)
  then have "map_of (collect_options L offer_wb student_options) row = Some options"
    using mem by simp
  then have "e' = options" using e'(1) by simp
  then show ?thesis
    using e'(2-6) ie by simp
qed

lemma option_sets_no_constraint:
  assumes init: "init_student_options L kalen_ws (Some c) = Some student_options"
    and mem: "(row, options) \<in> set (collect_options L offer_wb student_options)"
    and empty: "o_schools options = [] \<and> o_programs options = []"
    and syn: "synthesize_options L kalen_ws (Some c) last_col offer_wb = Some st"
    and v: "v \<in> set (validations st)"
  shows "dv_row v \<noteq> row"
proof
  assume r: "dv_row v = row"
  have st: "st = fold (write_block L (last_col + 1) (last_col + 2))
                  (collect_options L offer_wb student_options)
                  \<lparr>current_row = 1, options_ws = new_sheet, validations = []\<rparr>"
    using syn init by (simp add: synthesize_options_def)
  obtain entry where entry: "entry \<in> set (collect_options L offer_wb student_options)"
    "dv_row v = fst entry" "\<not> (o_schools (snd entry) = [] \<and> o_programs (snd entry) = [])"
    using write_blocks_validations [of v L "last_col + 1" "last_col + 2"
        "collect_options L offer_wb student_options"
        "\<lparr>current_row = 1, options_ws = new_sheet, validations = []\<rparr>"] v st
    by auto
  have "distinct (map fst (collect_options L offer_wb student_options))"
    using init_student_options_rows [OF init] by (simp add: collect_options_rows)
  moreover have "(row, snd entry) \<in> set (collect_options L offer_wb student_options)"
    using entry(1,2) r by (metis prod.collapse)
  ultimately have "snd entry = options"
    using mem by (meson eq_key_imp_eq_value)
  then show False using entry(3) empty by simp
qed

text \<open>
  C9, as amended. Let the identifier column be found. The entries of the synthesizer
  are the rows of the source sheet whose identifier cell and extracted identifier are
  truthy. For such a row, the institutions (the programs) of its OptionSet are exactly
  the sanitized and trimmed texts of column 1 (column 2) of the data rows with both
  cells truthy, taken from every sheet of the generated workbook, summary names apart,
  whose name is an integer \<open>n\<close> such that this row is the first row of the source
  sheet whose identifier equals \<open>n\<close>; a later row with the same identifier gets
  nothing. The values are kept without repetition. A row whose OptionSet is empty
  leaves the hidden sheet and the constraints as they are, and no constraint of the
  result is attached to it.
\<close>

theorem option_sets_first_row:
  "init_student_options L kalen_ws (Some c) = Some student_options \<longrightarrow>
     map fst (collect_options L offer_wb student_options) =
       filter (\<lambda>row. truthy (cell_value kalen_ws row c)
                \<and> truthy (extract_id_from_hyperlink (int_other L) (cell_value kalen_ws row c)))
         [2 ..< max_row kalen_ws + 1]
     \<and> ((row, options) \<in> set (collect_options L offer_wb student_options) \<longrightarrow>
          o_id options = extract_id_from_hyperlink (int_other L) (cell_value kalen_ws row c)
          \<and> truthy (o_id options)
          \<and> set (o_schools options) =
                {s. \<exists>n p. (n, s, p) \<in> set (option_items L offer_wb)
                       \<and> first_row_with student_options n = Some row}
          \<and> set (o_programs options) =
                {p. \<exists>n s. (n, s, p) \<in> set (option_items L offer_wb)
                       \<and> first_row_with student_options n = Some row}
          \<and> distinct (o_schools options) \<and> distinct (o_programs options)
          \<and> (o_schools options = [] \<and> o_programs options = [] \<longrightarrow>
                write_block L (last_col + 1) (last_col + 2) (row, options) st = st
                \<and> (\<forall>st'. synthesize_options L kalen_ws (Some c) last_col offer_wb = Some st' \<longrightarrow>
                      (\<forall>v\<in>set (validations st'). dv_row v \<noteq> row))))"
proof (intro impI conjI)
  assume init: "init_student_options L kalen_ws (Some c) = Some student_options"
  show "map fst (collect_options L offer_wb student_options) =
       filter (\<lambda>row. truthy (cell_value kalen_ws row c)
                \<and> truthy (extract_id_from_hyperlink (int_other L) (cell_value kalen_ws row c)))
         [2 ..< max_row kalen_ws + 1]"
    using init_student_options_rows [OF init] by (simp add: collect_options_rows)
  assume mem: "(row, options) \<in> set (collect_options L offer_wb student_options)"
  note main = option_sets_main [OF init mem]
  show "o_id options = extract_id_from_hyperlink (int_other L) (cell_value kalen_ws row c)"
    using main by blast
  show "truthy (o_id options)"
    using main by blast
  show "set (o_schools options) =
                {s. \<exists>n p. (n, s, p) \<in> set (option_items L offer_wb)
                       \<and> first_row_with student_options n = Some row}"
    using main by blast
  show "set (o_programs options) =
                {p. \<exists>n s. (n, s, p) \<in> set (option_items L offer_wb)
                       \<and> first_row_with student_options n = Some row}"
    using main by blast
  show "distinct (o_schools options)"
    using main by blast
  show "distinct (o_programs options)"
    using main by blast
  assume empty: "o_schools options = [] \<and> o_programs options = []"
  show "write_block L (last_col + 1) (last_col + 2) (row, options) st = st"
    using empty by (simp add: write_block_empty)
  show "\<forall>st'. synthesize_options L kalen_ws (Some c) last_col offer_wb = Some st' \<longrightarrow>
                      (\<forall>v\<in>set (validations st'). dv_row v \<noteq> row)"
    using option_sets_no_constraint [OF init mem empty] by blast
qed

text \<open>
  An example: a source sheet whose rows 2 and 3 both carry the identifier 5 and whose
  row 4 carries 6, and a generated workbook with the sheets 5 (two data rows) and 6 (one).
\<close>

definition example_ids :: worksheet where
  "example_ids =
     ws_cell (ws_cell (ws_cell (ws_cell new_sheet
       1 1 (PStr [23458, 25143, 105, 100]))
       2 1 (PInt 5))
       3 1 (PInt 5))
       4 1 (PInt 6)"

definition example_offer :: workbook where
  "example_offer =
     [(ascii ''5'',
       ws_cell (ws_cell (ws_cell (ws_cell new_sheet
         3 1 (PStr (ascii ''Oxford'')))
         3 2 (PStr (ascii ''CS'')))
         4 1 (PStr (ascii ''Oxford '')))
         4 2 (PStr (ascii ''Math''))),
      (ascii ''6'',
       ws_cell (ws_cell new_sheet
         3 1 (PStr (ascii ''UCL'')))
         3 2 (PStr (ascii ''Law'')))]"

lemmas option_defs =
  init_student_options_def collect_options_def scan_sheet_def option_items_def sheet_items_def
  first_row_with_def example_ids_def example_offer_def extract_id_from_hyperlink_def
  py_int_def parse_decimal_def ws_proj get_cell_def new_sheet_def blank_def cell_value_def
  example_lib_def ascii_def py_eq_def Let_def clean_str_def replace_char_def strip_def
  is_space_def

lemma example_ids_entries:
  "init_student_options example_lib example_ids (Some 1) =
     Some [(2, \<lparr>o_id = PInt 5, o_schools = [], o_programs = []\<rparr>),
           (3, \<lparr>o_id = PInt 5, o_schools = [], o_programs = []\<rparr>),
           (4, \<lparr>o_id = PInt 6, o_schools = [], o_programs = []\<rparr>)]"
  by (simp add: option_defs)

lemma example_offer_items:
  "option_items example_lib example_offer =
     [(5, ascii ''Oxford'', ascii ''CS''), (5, ascii ''Oxford'', ascii ''Math''),
      (6, ascii ''UCL'', ascii ''Law'')]"
  by (simp add: option_defs)

lemma example_collected:
  "collect_options example_lib example_offer
     [(2, \<lparr>o_id = PInt 5, o_schools = [], o_programs = []\<rparr>),
      (3, \<lparr>o_id = PInt 5, o_schools = [], o_programs = []\<rparr>),
      (4, \<lparr>o_id = PInt 6, o_schools = [], o_programs = []\<rparr>)]
   = [(2, \<lparr>o_id = PInt 5, o_schools = [ascii ''Oxford''],
           o_programs = [ascii ''Math'', ascii ''CS'']\<rparr>),
      (3, \<lparr>o_id = PInt 5, o_schools = [], o_programs = []\<rparr>),
      (4, \<lparr>o_id = PInt 6, o_schools = [ascii ''UCL''], o_programs = [ascii ''Law'']\<rparr>)]"
  by (simp add: option_defs)

lemma example_synthesized:
  "map_option (\<lambda>st. (current_row st,
        map (\<lambda>v. (dv_column v, dv_row v, dv_list_column v, dv_first v, dv_last v))
          (validations st)))
     (synthesize_options example_lib example_ids (Some 1) 1 example_offer)
   = Some (8, [(2, 2, 1, 2, 2), (3, 2, 2, 2, 3), (2, 4, 1, 6, 6), (3, 4, 2, 6, 6)])"
  unfolding synthesize_options_def example_ids_entries option.case example_collected
  by (simp add: write_block_def Let_def)

theorem option_sets_first_row_witness:
  "init_student_options example_lib example_ids (Some 1) =
     Some [(2, \<lparr>o_id = PInt 5, o_schools = [], o_programs = []\<rparr>),
           (3, \<lparr>o_id = PInt 5, o_schools = [], o_programs = []\<rparr>),
           (4, \<lparr>o_id = PInt 6, o_schools = [], o_programs = []\<rparr>)]
   \<and> (3, \<lparr>o_id = PInt 5, o_schools = [], o_programs = []\<rparr>)
       \<in> set (collect_options example_lib example_offer
            [(2, \<lparr>o_id = PInt 5, o_schools = [], o_programs = []\<rparr>),
             (3, \<lparr>o_id = PInt 5, o_schools = [], o_programs = []\<rparr>),
             (4, \<lparr>o_id = PInt 6, o_schools = [], o_programs = []\<rparr>)])
   \<and> first_row_with
        [(2, \<lparr>o_id = PInt 5, o_schools = [], o_programs = []\<rparr>),
         (3, \<lparr>o_id = PInt 5, o_schools = [], o_programs = []\<rparr>),
         (4, \<lparr>o_id = PInt 6, o_schools = [], o_programs = []\<rparr>)] 5 = Some 2
   \<and> map_option (\<lambda>st. map dv_row (validations st))
        (synthesize_options example_lib example_ids (Some 1) 1 example_offer)
       = Some [2, 2, 4, 4]"
proof -
  have s: "map_option (\<lambda>st. map dv_row (validations st))
        (synthesize_options example_lib example_ids (Some 1) 1 example_offer)
       = Some [2, 2, 4, 4]"
    using example_synthesized by (auto simp: map_option_case split: option.splits)
  have f: "first_row_with
        [(2, \<lparr>o_id = PInt 5, o_schools = [], o_programs = []\<rparr>),
         (3, \<lparr>o_id = PInt 5, o_schools = [], o_programs = []\<rparr>),
         (4, \<lparr>o_id = PInt 6, o_schools = [], o_programs = []\<rparr>)] 5 = Some 2"
    by (simp add: first_row_with_def py_eq_def)
  have m: "(3, \<lparr>o_id = PInt 5, o_schools = [], o_programs = []\<rparr>)
       \<in> set (collect_options example_lib example_offer
            [(2, \<lparr>o_id = PInt 5, o_schools = [], o_programs = []\<rparr>),
             (3, \<lparr>o_id = PInt 5, o_schools = [], o_programs = []\<rparr>),
             (4, \<lparr>o_id = PInt 6, o_schools = [], o_programs = []\<rparr>)])"
    unfolding example_collected by simp
  show ?thesis
    using option_sets_first_row
      [where L = example_lib and kalen_ws = example_ids and c = 1 and offer_wb = example_offer
         and row = 3 and options = "\<lparr>o_id = PInt 5, o_schools = [], o_programs = []\<rparr>"
         and last_col = 1
         and st = "\<lparr>current_row = 1, options_ws = new_sheet, validations = []\<rparr>"
         and student_options =
           "[(2, \<lparr>o_id = PInt 5, o_schools = [], o_programs = []\<rparr>),
             (3, \<lparr>o_id = PInt 5, o_schools = [], o_programs = []\<rparr>),
             (4, \<lparr>o_id = PInt 6, o_schools = [], o_programs = []\<rparr>)]"]
      example_ids_entries s f m
    by blast
qed

text \<open>
  The claim as stated fails on row 3 of the example: its identifier cell yields the
  truthy identifier 5, the sheet named 5 parses as the integer 5 and offers Oxford with
  CS and with Math, and the OptionSet of row 3 is empty: the pairs went to row 2, the
  first row with the identifier 5, where the inner loop stops.
\<close>

theorem option_sets_counterexample:
  "init_student_options example_lib example_ids (Some 1) =
     Some [(2, \<lparr>o_id = PInt 5, o_schools = [], o_programs = []\<rparr>),
           (3, \<lparr>o_id = PInt 5, o_schools = [], o_programs = []\<rparr>),
           (4, \<lparr>o_id = PInt 6, o_schools = [], o_programs = []\<rparr>)]
   \<and> collect_options example_lib example_offer
        [(2, \<lparr>o_id = PInt 5, o_schools = [], o_programs = []\<rparr>),
         (3, \<lparr>o_id = PInt 5, o_schools = [], o_programs = []\<rparr>),
         (4, \<lparr>o_id = PInt 6, o_schools = [], o_programs = []\<rparr>)]
      = [(2, \<lparr>o_id = PInt 5, o_schools = [ascii ''Oxford''],
              o_programs = [ascii ''Math'', ascii ''CS'']\<rparr>),
         (3, \<lparr>o_id = PInt 5, o_schools = [], o_programs = []\<rparr>),
         (4, \<lparr>o_id = PInt 6, o_schools = [ascii ''UCL''], o_programs = [ascii ''Law'']\<rparr>)]
   \<and> extract_id_from_hyperlink (int_other example_lib) (cell_value example_ids 3 1) = PInt 5
   \<and> truthy (PInt 5)
   \<and> py_int (int_other example_lib) (ascii ''5'') = Some 5
   \<and> option_items example_lib example_offer =
       [(5, ascii ''Oxford'', ascii ''CS''), (5, ascii ''Oxford'', ascii ''Math''),
        (6, ascii ''UCL'', ascii ''Law'')]
   \<and> set ([] :: ustr list) \<noteq> {ascii ''Oxford''}"
proof -
  have "extract_id_from_hyperlink (int_other example_lib) (cell_value example_ids 3 1) = PInt 5"
    by (simp add: option_defs)
  moreover have "py_int (int_other example_lib) (ascii ''5'') = Some 5"
    by (simp add: option_defs)
  ultimately show ?thesis
    using example_ids_entries example_collected example_offer_items by simp
qed

end
